theory Spec2Isabelle
  imports Main "HOL-Library.Word"
begin

unbundle bit_operations_syntax

section \<open>Selection DAG nodes read by the TriCore instruction selector\<close>

text \<open>
  The value of a \<open>ConstantSDNode\<close>: an integer of one of the machine value types.
  The constructor is the node's value type (\<open>getValueType(0)\<close>), its argument the bits.
\<close>

datatype APInt = I1 "1 word" | I8 "8 word" | I16 "16 word" | I32 "32 word" | I64 "64 word"

datatype MVT = MVT_i1 | MVT_i8 | MVT_i16 | MVT_i32 | MVT_i64

fun getValueType :: "APInt \<Rightarrow> MVT" where
  "getValueType (I1 v) = MVT_i1"
| "getValueType (I8 v) = MVT_i8"
| "getValueType (I16 v) = MVT_i16"
| "getValueType (I32 v) = MVT_i32"
| "getValueType (I64 v) = MVT_i64"

text \<open>\<open>getZExtValue\<close>: the bits zero-extended to \<open>uint64_t\<close>.\<close>

fun getZExtValue :: "APInt \<Rightarrow> 64 word" where
  "getZExtValue (I1 v) = ucast v"
| "getZExtValue (I8 v) = ucast v"
| "getZExtValue (I16 v) = ucast v"
| "getZExtValue (I32 v) = ucast v"
| "getZExtValue (I64 v) = v"

text \<open>\<open>getSExtValue\<close>: the bits sign-extended to \<open>int64_t\<close>.\<close>

fun getSExtValue :: "APInt \<Rightarrow> 64 word" where
  "getSExtValue (I1 v) = scast v"
| "getSExtValue (I8 v) = scast v"
| "getSExtValue (I16 v) = scast v"
| "getSExtValue (I32 v) = scast v"
| "getSExtValue (I64 v) = v"

text \<open>
  The nodes of an address expression, by opcode. \<open>MatchAddress\<close> distinguishes
  \<open>ISD::Constant\<close>, \<open>TriCoreISD::Wrapper\<close>, \<open>ISD::FrameIndex\<close>, \<open>ISD::ADD\<close> and
  \<open>ISD::OR\<close>; \<open>MatchWrapper\<close> asks whether the wrapped operand is a
  \<open>GlobalAddressSDNode\<close> (a global and its byte offset). Every other value-producing
  node (a register copy, a load, ...) is \<open>ISD_Other\<close> with an identity. The last three
  are the operands \<open>SelectAddr_new\<close> creates: \<open>getRegister\<close>, \<open>getTargetFrameIndex\<close>
  and \<open>getTargetConstant\<close>.
\<close>

datatype SDNode =
    ISD_Constant APInt
  | ISD_FrameIndex "32 word"
  | ISD_GlobalAddress string "64 word"
  | ISD_ExternalSymbol string
  | ISD_BlockAddress string
  | ISD_ConstantPool nat
  | ISD_JumpTable "32 word"
  | TriCoreISD_Wrapper SDNode
  | ISD_ADD SDNode SDNode
  | ISD_OR SDNode SDNode
  | ISD_Other nat
  | ISD_Register "32 word"
  | ISD_TargetFrameIndex "32 word"
  | ISD_TargetConstant APInt

section \<open>The addressing mode\<close>

datatype BaseKind = RegBase | FrameIndexBase

text \<open>
  \<open>struct TriCoreISelAddressMode\<close>. \<open>Base_Reg\<close> is the \<open>SDValue Base.Reg\<close>, \<open>None\<close>
  when its node is null; null pointers are \<open>None\<close>; \<open>JT\<close> is an \<open>int\<close> with \<open>-1\<close>
  for no jump table.
\<close>

record TriCoreISelAddressMode =
  BaseType :: BaseKind
  Base_Reg :: "SDNode option"
  Base_FrameIndex :: "32 word"
  Disp :: "64 word"
  GV :: "string option"
  CP :: "nat option"
  BlockAddr :: "string option"
  ES :: "string option"
  JT :: "32 word"
  Align :: "32 word"

text \<open>
  The constructor. It does not initialise \<open>Base.FrameIndex\<close>: the argument is the
  indeterminate content of that field.
\<close>

definition TriCoreISelAddressMode_init :: "32 word \<Rightarrow> TriCoreISelAddressMode" where
  "TriCoreISelAddressMode_init fi =
     \<lparr> BaseType = RegBase, Base_Reg = None, Base_FrameIndex = fi, Disp = 0,
       GV = None, CP = None, BlockAddr = None, ES = None, JT = - 1, Align = 0 \<rparr>"

definition hasSymbolicDisplacement :: "TriCoreISelAddressMode \<Rightarrow> bool" where
  "hasSymbolicDisplacement AM \<longleftrightarrow>
     GV AM \<noteq> None \<or> CP AM \<noteq> None \<or> ES AM \<noteq> None \<or> JT AM \<noteq> - 1"

section \<open>Address matching\<close>

text \<open>
  As in the source, the matchers return \<open>True\<close> when no match is possible and \<open>False\<close>
  on success; the mode passed by reference is returned beside the flag.
\<close>

text \<open>\<open>dyn_cast<GlobalAddressSDNode>\<close> and \<open>dyn_cast<ConstantSDNode>\<close>.\<close>

fun dyn_cast_GlobalAddressSDNode :: "SDNode \<Rightarrow> (string \<times> 64 word) option" where
  "dyn_cast_GlobalAddressSDNode (ISD_GlobalAddress G Offset) = Some (G, Offset)"
| "dyn_cast_GlobalAddressSDNode N = None"

fun dyn_cast_ConstantSDNode :: "SDNode \<Rightarrow> APInt option" where
  "dyn_cast_ConstantSDNode (ISD_Constant C) = Some C"
| "dyn_cast_ConstantSDNode (ISD_TargetConstant C) = Some C"
| "dyn_cast_ConstantSDNode N = None"

text \<open>
  \<open>MatchWrapper\<close> is called on \<open>TriCoreISD::Wrapper\<close> nodes only; \<open>N0\<close> is
  \<open>N.getOperand(0)\<close>.
\<close>

fun MatchWrapper :: "SDNode \<Rightarrow> TriCoreISelAddressMode \<Rightarrow> bool \<times> TriCoreISelAddressMode" where
  "MatchWrapper (TriCoreISD_Wrapper N0) AM =
     (if hasSymbolicDisplacement AM then (True, AM)
      else (case dyn_cast_GlobalAddressSDNode N0 of
              Some (G, Offset) \<Rightarrow> (False, AM\<lparr>GV := Some G, Disp := Disp AM + Offset\<rparr>)
            | None \<Rightarrow> (False, AM)))"

definition MatchAddressBase :: "SDNode \<Rightarrow> TriCoreISelAddressMode \<Rightarrow> bool \<times> TriCoreISelAddressMode" where
  "MatchAddressBase N AM =
     (if BaseType AM \<noteq> RegBase \<or> Base_Reg AM \<noteq> None then (True, AM)
      else (False, AM\<lparr>BaseType := RegBase, Base_Reg := Some N\<rparr>))"

text \<open>
  \<open>MatchAddress\<close>. The first argument is \<open>CurDAG->MaskedValueIsZero\<close>, the known-bits
  analysis of the surrounding selection DAG.
\<close>

fun MatchAddress ::
  "(SDNode \<Rightarrow> APInt \<Rightarrow> bool) \<Rightarrow> SDNode \<Rightarrow> TriCoreISelAddressMode \<Rightarrow> bool \<times> TriCoreISelAddressMode"
where
  "MatchAddress mvz (ISD_Constant C) AM = (False, AM\<lparr>Disp := Disp AM + getSExtValue C\<rparr>)"
| "MatchAddress mvz (TriCoreISD_Wrapper N0) AM =
     (case MatchWrapper (TriCoreISD_Wrapper N0) AM of
        (False, AM1) \<Rightarrow> (False, AM1)
      | (True, AM1) \<Rightarrow> MatchAddressBase (TriCoreISD_Wrapper N0) AM1)"
| "MatchAddress mvz (ISD_FrameIndex i) AM =
     (if BaseType AM = RegBase \<and> Base_Reg AM = None
      then (False, AM\<lparr>BaseType := FrameIndexBase, Base_FrameIndex := i\<rparr>)
      else MatchAddressBase (ISD_FrameIndex i) AM)"
| "MatchAddress mvz (ISD_ADD N0 N1) AM =
     (let Backup = AM in
      case MatchAddress mvz N0 AM of (r0, AM0) \<Rightarrow>
        if \<not> r0 \<and> \<not> fst (MatchAddress mvz N1 AM0) then (False, snd (MatchAddress mvz N1 AM0))
        else (case MatchAddress mvz N1 Backup of (r1, AM1) \<Rightarrow>
          if \<not> r1 \<and> \<not> fst (MatchAddress mvz N0 AM1) then (False, snd (MatchAddress mvz N0 AM1))
          else MatchAddressBase (ISD_ADD N0 N1) Backup))"
| "MatchAddress mvz (ISD_OR N0 N1) AM =
     (case dyn_cast_ConstantSDNode N1 of
        Some CN \<Rightarrow>
          (let Backup = AM; Offset = getSExtValue CN in
           case MatchAddress mvz N0 AM of (r0, AM0) \<Rightarrow>
             if \<not> r0 \<and> GV AM0 = None \<and> mvz N0 CN
             then (False, AM0\<lparr>Disp := Disp AM0 + Offset\<rparr>)
             else MatchAddressBase (ISD_OR N0 N1) Backup)
      | None \<Rightarrow> MatchAddressBase (ISD_OR N0 N1) AM)"
| "MatchAddress mvz N AM = MatchAddressBase N AM"

text \<open>
  \<open>SelectAddr_new\<close>. The result is the returned flag (here \<open>True\<close> is a match), the
  reference parameters \<open>Base\<close> and \<open>Disp\<close> (\<open>None\<close> when not assigned, or assigned a null
  value) and, last, the local mode \<open>AM\<close> as it is at the return. The argument \<open>fi\<close> is the
  indeterminate \<open>Base.FrameIndex\<close> of the fresh mode. The displacement operand is a target
  constant of type \<open>i32\<close>, which keeps the low 32 bits.
\<close>

definition SelectAddr_new ::
  "(SDNode \<Rightarrow> APInt \<Rightarrow> bool) \<Rightarrow> 32 word \<Rightarrow> SDNode
     \<Rightarrow> bool \<times> SDNode option \<times> SDNode option \<times> TriCoreISelAddressMode" where
  "SelectAddr_new mvz fi N =
     (case MatchAddress mvz N (TriCoreISelAddressMode_init fi) of
        (True, AM) \<Rightarrow> (False, None, None, AM)
      | (False, AM) \<Rightarrow>
          (let AM1 = (if BaseType AM = RegBase \<and> Base_Reg AM = None
                      then AM\<lparr>Base_Reg := Some (ISD_Register 0)\<rparr> else AM);
               Base = (if BaseType AM1 = FrameIndexBase
                       then Some (ISD_TargetFrameIndex (Base_FrameIndex AM1))
                       else Base_Reg AM1);
               Disp' = ISD_TargetConstant (I32 (ucast (Disp AM1)))
           in if GV AM1 \<noteq> None then (True, Some N, Some Disp', AM1)
              else (True, Base, Some Disp', AM1)))"

section \<open>Notions used to state the properties of address matching\<close>

text \<open>
  Address expressions that are additions over constants and one other leaf:
  \<open>onlyConstants N\<close> holds when \<open>N\<close> is built from \<open>ISD::ADD\<close> over constant leaves
  only, \<open>addChainOver L N\<close> when it is built from \<open>ISD::ADD\<close> over constant leaves and
  exactly one occurrence of the leaf \<open>L\<close>. \<open>constantSum\<close> adds the sign-extended constants
  in \<open>int64_t\<close>, \<open>constantSum_int\<close> as integers.
\<close>

fun constantSum :: "SDNode \<Rightarrow> 64 word" where
  "constantSum (ISD_Constant C) = getSExtValue C"
| "constantSum (ISD_ADD N0 N1) = constantSum N0 + constantSum N1"
| "constantSum N = 0"

fun constantSum_int :: "SDNode \<Rightarrow> int" where
  "constantSum_int (ISD_Constant C) = sint (getSExtValue C)"
| "constantSum_int (ISD_ADD N0 N1) = constantSum_int N0 + constantSum_int N1"
| "constantSum_int N = 0"

fun onlyConstants :: "SDNode \<Rightarrow> bool" where
  "onlyConstants (ISD_Constant C) = True"
| "onlyConstants (ISD_ADD N0 N1) = (onlyConstants N0 \<and> onlyConstants N1)"
| "onlyConstants N = False"

fun addChainOver :: "SDNode \<Rightarrow> SDNode \<Rightarrow> bool" where
  "addChainOver L (ISD_ADD N0 N1) =
     (addChainOver L N0 \<and> onlyConstants N1 \<or> onlyConstants N0 \<and> addChainOver L N1)"
| "addChainOver L N = (N = L)"

text \<open>
  Two known-bits analyses to run the matcher on: one that knows the low two bits of the
  node \<open>ISD_Other 1\<close> to be clear, one that knows nothing.
\<close>

definition MaskedValueIsZero_low2 :: "SDNode \<Rightarrow> APInt \<Rightarrow> bool" where
  "MaskedValueIsZero_low2 Op Mask \<longleftrightarrow> Op = ISD_Other 1 \<and> getZExtValue Mask AND NOT 3 = 0"

definition MaskedValueIsZero_none :: "SDNode \<Rightarrow> APInt \<Rightarrow> bool" where
  "MaskedValueIsZero_none Op Mask = False"

text \<open>
  The condition under which a bitwise or with a constant is treated as an addition, as the
  specification words it: the right operand is a constant, the left operand alone
  matches, the mode it leaves carries no symbolic reference, and the analysis proves the
  bits of the constant clear in the left operand.
\<close>

definition OR_fold_condition ::
  "(SDNode \<Rightarrow> APInt \<Rightarrow> bool) \<Rightarrow> SDNode \<Rightarrow> SDNode \<Rightarrow> TriCoreISelAddressMode \<Rightarrow> bool" where
  "OR_fold_condition mvz N0 N1 AM \<longleftrightarrow>
     (case dyn_cast_ConstantSDNode N1 of
        None \<Rightarrow> False
      | Some CN \<Rightarrow>
          \<not> fst (MatchAddress mvz N0 AM)
          \<and> \<not> hasSymbolicDisplacement (snd (MatchAddress mvz N0 AM))
          \<and> mvz N0 CN)"

text \<open>
  The modes the matcher can hold: the fresh mode of \<open>SelectAddr_new\<close>, whatever the three
  matching functions make of a mode they are given, and the mode \<open>SelectAddr_new\<close> ends
  with.
\<close>

inductive reachable_mode :: "(SDNode \<Rightarrow> APInt \<Rightarrow> bool) \<Rightarrow> TriCoreISelAddressMode \<Rightarrow> bool"
  for mvz :: "SDNode \<Rightarrow> APInt \<Rightarrow> bool"
where
  fresh: "reachable_mode mvz (TriCoreISelAddressMode_init fi)"
| wrapper: "reachable_mode mvz AM \<Longrightarrow> reachable_mode mvz (snd (MatchWrapper (TriCoreISD_Wrapper N0) AM))"
| base: "reachable_mode mvz AM \<Longrightarrow> reachable_mode mvz (snd (MatchAddressBase N AM))"
| address: "reachable_mode mvz AM \<Longrightarrow> reachable_mode mvz (snd (MatchAddress mvz N AM))"
| select: "reachable_mode mvz (snd (snd (snd (SelectAddr_new mvz fi N))))"

text \<open>The fields of the mode for symbols other than a global value.\<close>

definition other_symbol_fields ::
  "TriCoreISelAddressMode \<Rightarrow> nat option \<times> string option \<times> 32 word \<times> string option \<times> 32 word" where
  "other_symbol_fields AM = (CP AM, ES AM, JT AM, BlockAddr AM, Align AM)"

section \<open>Constant materialization\<close>

subsection \<open>Bit helpers\<close>

text \<open>
  Modelled from the spec: the compiler builtin \<open>__builtin_ffs\<close>, which the source
  describes as "one plus the index of the least significant 1-bit of x, or if x is zero,
  returns zero". The C \<open>int\<close> and \<open>unsigned\<close> values are 32-bit words.
\<close>

definition builtin_ffs :: "32 word \<Rightarrow> 32 word" where
  "builtin_ffs x = (case find (bit x) [0..<32] of None \<Rightarrow> 0 | Some i \<Rightarrow> of_nat i + 1)"

definition getFFS :: "32 word \<Rightarrow> 32 word" where
  "getFFS v = builtin_ffs v"

text \<open>The number of set bits, by the source's parallel bit count.\<close>

definition getNumSetBits :: "32 word \<Rightarrow> 32 word" where
  "getNumSetBits v =
     (let v1 = v - (drop_bit 1 v AND 0x55555555);
          v2 = (v1 AND 0x33333333) + (drop_bit 2 v1 AND 0x33333333);
          c = drop_bit 24 (((v2 + drop_bit 4 v2) AND 0xF0F0F0F) * 0x1010101)
      in c)"

text \<open>
  \<open>getNumConsecutiveOnes\<close>: the \<open>while (in)\<close> loop. Each round clears at least the
  lowest set bit, which is why it terminates.
\<close>

lemma bit_shl1_iff:
  fixes x :: "'a::len word"
  shows "bit (push_bit 1 x) n \<longleftrightarrow> n \<noteq> 0 \<and> n < LENGTH('a) \<and> bit x (n - 1)"
  unfolding bit_push_bit_iff by (auto simp: possible_bit_word Suc_le_eq)

lemma and_shift_self_eq_0:
  fixes x :: "'a::len word"
  assumes "x AND push_bit 1 x = x"
  shows "x = 0"
proof -
  have step: "bit x n \<longleftrightarrow> bit x n \<and> bit (push_bit 1 x) n" for n
    using arg_cong [OF assms, of "\<lambda>w. bit w n"] unfolding bit_and_iff by blast
  have "\<not> bit x n" for n
  proof (induction n)
    case 0
    show ?case using step [of 0] unfolding bit_shl1_iff by blast
  next
    case (Suc n)
    then show ?case using step [of "Suc n"] unfolding bit_shl1_iff by simp
  qed
  then show ?thesis by (simp add: bit_eq_iff)
qed

lemma and_shift_self_less:
  fixes x :: "'a::len word"
  assumes "x \<noteq> 0"
  shows "unat (x AND push_bit 1 x) < unat x"
proof -
  have "x AND push_bit 1 x \<le> x" by (rule word_and_le2)
  moreover have "x AND push_bit 1 x \<noteq> x" using assms and_shift_self_eq_0 by blast
  ultimately have "x AND push_bit 1 x < x" by simp
  then show ?thesis by (simp only: word_less_nat_alt)
qed

function getNumConsecutiveOnes_loop :: "32 word \<Rightarrow> 32 word \<Rightarrow> 32 word" where
  "getNumConsecutiveOnes_loop inp count =
     (if inp \<noteq> 0 then getNumConsecutiveOnes_loop (inp AND push_bit 1 inp) (count + 1) else count)"
  by pat_completeness auto
termination
  by (relation "measure (\<lambda>(inp, count). unat inp)") (auto intro: and_shift_self_less [simplified])

definition getNumConsecutiveOnes :: "32 word \<Rightarrow> 32 word" where
  "getNumConsecutiveOnes inp = getNumConsecutiveOnes_loop inp 0"

text \<open>\<open>ipow\<close>: the \<open>for\<close> loop that doubles \<open>result\<close> while \<open>i < base\<close> (signed).\<close>

lemma sint_succ_below:
  fixes i :: "32 word"
  assumes "i <s base"
  shows "sint (i + 1) = sint i + 1"
proof -
  have "sint i < sint base" using assms by (simp add: word_sless_alt)
  moreover have "sint base < 2 ^ 31" using sint_lt [of base] by simp
  moreover have "- (2 ^ 31) \<le> sint i" using sint_ge [of i] by simp
  ultimately have "signed_take_bit 31 (sint i + 1) = sint i + 1"
    by (intro signed_take_bit_int_eq_self) simp_all
  then show ?thesis by (simp add: sint_word_ariths)
qed

function ipow_loop :: "32 word \<Rightarrow> 32 word \<Rightarrow> 32 word \<Rightarrow> 32 word" where
  "ipow_loop base i result =
     (if i <s base then ipow_loop base (i + 1) (push_bit 1 result) else result)"
  by pat_completeness auto
termination
  by (relation "measure (\<lambda>(base, i, result). nat (sint base - sint i))")
     (auto simp: sint_succ_below word_sless_alt)

definition ipow :: "32 word \<Rightarrow> 32 word" where
  "ipow base = ipow_loop base 0 1"

subsection \<open>Machine nodes\<close>

text \<open>
  The machine nodes \<open>SelectConstant\<close> builds: an opcode, a result type and operands,
  each operand a target constant of type \<open>i32\<close> or the result of an earlier node.
\<close>

datatype Opcode = IMASKrcpw | MOVrlc | MOVUrlc | MOVHrlc | ADDsrc | ADDrc | ADDIrlc

datatype MachineSDNode =
    MachineNode (getMachineOpcode: Opcode) (getSimpleValueType: MVT) (ops: "Operand list")
  and Operand = TargetConstant "32 word" | ResultOf MachineSDNode

text \<open>
  Modelled from the spec: \<open>CurDAG->getTargetConstant(Val, N, MVT::i32)\<close> of the
  selection DAG, which keeps the low 32 bits of its \<open>uint64_t\<close> argument.
\<close>

definition getTargetConstant :: "64 word \<Rightarrow> Operand" where
  "getTargetConstant Val = TargetConstant (ucast Val)"

text \<open>
  What \<open>SelectConstant\<close> returns: the result of \<open>SelectCode(N)\<close> (the generated
  matcher), a machine node, or the local \<open>Move\<close> that no branch has assigned.
\<close>

datatype Selection = SelectCode | Selected MachineSDNode | Uninitialized

text \<open>
  \<open>CurDAG->getMachineNode\<close> creates a node in the DAG: the nodes created so far are
  passed along, oldest first.
\<close>

definition getMachineNode ::
  "Opcode \<Rightarrow> MVT \<Rightarrow> Operand list \<Rightarrow> MachineSDNode list \<Rightarrow> MachineSDNode \<times> MachineSDNode list" where
  "getMachineNode Opc VT Ops dag = (MachineNode Opc VT Ops, dag @ [MachineNode Opc VT Ops])"

subsection \<open>\<open>SelectConstant\<close>\<close>

text \<open>
  The block for \<open>MVT::i64\<close> constants: \<open>Some\<close> is a \<open>return\<close> inside the block,
  \<open>None\<close> is leaving the block without one.
\<close>

definition SelectConstant_i64 :: "64 word \<Rightarrow> 64 word \<Rightarrow> (Selection \<times> MachineSDNode list) option" where
  "SelectConstant_i64 ImmVal ImmSVal =
     (let lowerByte = (ucast (ImmVal AND 0x00000000ffffffff) :: 32 word);
          higherByte = (ucast (drop_bit 32 ImmVal) :: 32 word);
          width = (0 :: 64 word)
      in
      if ImmVal = 0 then
        (let constVal = getTargetConstant 0;
             width' = getTargetConstant 0;
             pos = getTargetConstant 0;
             (n, dag) = getMachineNode IMASKrcpw MVT_i64 [constVal, pos, width'] []
         in Some (Selected n, dag))
      else if ImmSVal <s 0 \<or> (higherByte \<noteq> 0 \<and> lowerByte \<noteq> 0) then Some (SelectCode, [])
      else if higherByte = 0 \<and> lowerByte \<noteq> 0 then
        (let posLSB = (scast (getFFS lowerByte - 1) :: 64 word);
             numSetBits = (scast (getNumSetBits lowerByte) :: 64 word);
             numConsecBits = (scast (getNumConsecutiveOnes lowerByte) :: 64 word)
         in
         if numSetBits \<noteq> numConsecBits then Some (SelectCode, [])
         else if numConsecBits > 4 then Some (SelectCode, [])
         else
           (let Const4Val = (scast (ipow (ucast numConsecBits) - 1) :: 64 word);
                constVal = getTargetConstant Const4Val;
                width' = getTargetConstant width;
                pos = getTargetConstant posLSB;
                (n, dag) = getMachineNode IMASKrcpw MVT_i64 [constVal, pos, width'] []
            in Some (Selected n, dag)))
      else if higherByte \<noteq> 0 \<and> lowerByte = 0 then
        (let posLSB = (scast (getFFS higherByte - 1) :: 64 word);
             numSetBits = (scast (getNumSetBits higherByte) :: 64 word);
             numConsecBits = (scast (getNumConsecutiveOnes higherByte) :: 64 word)
         in
         if numSetBits \<noteq> numConsecBits then Some (SelectCode, [])
         else if posLSB + numConsecBits > 31 then Some (SelectCode, [])
         else
           (let constVal = getTargetConstant 0;
                width' = getTargetConstant numConsecBits;
                pos = getTargetConstant posLSB;
                (n, dag) = getMachineNode IMASKrcpw MVT_i64 [constVal, pos, width'] []
            in Some (Selected n, dag)))
      else None)"

text \<open>The immediate of the move-high instruction (\<open>hiShift\<close>).\<close>

definition hiShift_of :: "64 word \<Rightarrow> 64 word \<Rightarrow> 64 word" where
  "hiShift_of ImmLo ImmSVal =
     (let ImmLo_ext64 = (scast (ucast ImmLo :: 16 word) :: 64 word);
          hiShift = signed_drop_bit 16 (ImmSVal - ImmLo_ext64)
      in if hiShift <s 0 then 65536 + hiShift else hiShift)"

text \<open>The move and add sequences after the \<open>i64\<close> block.\<close>

definition SelectConstant_move :: "64 word \<Rightarrow> 64 word \<Rightarrow> Selection \<times> MachineSDNode list" where
  "SelectConstant_move ImmVal ImmSVal =
     (let LoMask = (0xffff :: 64 word);
          HiMask = (0xffff0000 :: 64 word);
          ImmLo = ImmVal AND LoMask;
          ImmSLo = (ImmSVal AND LoMask) - 65536;
          ImmHi = ImmVal AND HiMask;
          ConstLo = getTargetConstant ImmLo;
          ConstSImm = getTargetConstant ImmSVal;
          ConstEImm = getTargetConstant ImmVal;
          hiShift = hiShift_of ImmLo ImmSVal;
          ConstHi = getTargetConstant hiShift
      in
      if ImmHi = 0 \<and> ImmLo \<noteq> 0 then
        (if 0 \<le>s ImmSVal \<and> ImmSVal <s 32768 then
           (let (n, dag) = getMachineNode MOVrlc MVT_i32 [ConstEImm] [] in (Selected n, dag))
         else if 32768 \<le>s ImmSVal \<and> ImmSVal <s 65536 then
           (let (n, dag) = getMachineNode MOVUrlc MVT_i32 [ConstEImm] [] in (Selected n, dag))
         else (Uninitialized, []))
      else if ImmHi \<noteq> 0 \<and> ImmLo = 0 then
        (let (Move, dag) = getMachineNode MOVHrlc MVT_i32 [ConstHi] [] in (Selected Move, dag))
      else if ImmHi = 0 \<and> ImmLo = 0 then
        (let (n, dag) = getMachineNode MOVrlc MVT_i32 [ConstHi] [] in (Selected n, dag))
      else
        (let (Move, dag) = getMachineNode MOVHrlc MVT_i32 [ConstHi] [] in
         if - 32768 \<le>s ImmSVal \<and> ImmSVal <s 0 then
           (let (n, dag1) = getMachineNode MOVrlc MVT_i32 [ConstSImm] dag in (Selected n, dag1))
         else if (- 8 \<le>s ImmSLo \<and> ImmSLo <s 8) \<or> ImmLo < 8 then
           (let (Move1, dag1) = getMachineNode ADDsrc MVT_i32 [ResultOf Move, ConstLo] dag
            in (Selected Move1, dag1))
         else if 8 \<le> ImmLo \<and> ImmLo < 256 then
           (let (Move1, dag1) = getMachineNode ADDrc MVT_i32 [ResultOf Move, ConstLo] dag
            in (Selected Move1, dag1))
         else
           (let (Move1, dag1) = getMachineNode ADDIrlc MVT_i32 [ResultOf Move, ConstLo] dag
            in (Selected Move1, dag1))))"

definition SelectConstant :: "APInt \<Rightarrow> Selection \<times> MachineSDNode list" where
  "SelectConstant ConstVal =
     (let ImmVal = getZExtValue ConstVal;
          ImmSVal = getSExtValue ConstVal
      in case (if getValueType ConstVal = MVT_i64 then SelectConstant_i64 ImmVal ImmSVal else None) of
           Some r \<Rightarrow> r
         | None \<Rightarrow> SelectConstant_move ImmVal ImmSVal)"

text \<open>
  Modelled from the spec: the masked-insert instruction (\<open>IMASK\<close>) of the hardware,
  which the source only names. With operands \<open>const4\<close>, \<open>pos\<close> and \<open>width\<close> it writes
  a register pair: the lower word is \<open>const4\<close> shifted left by \<open>pos\<close>, the upper word
  is a run of \<open>width\<close> ones shifted left by \<open>pos\<close>.
\<close>

definition IMASK_value :: "32 word \<Rightarrow> 32 word \<Rightarrow> 32 word \<Rightarrow> 64 word" where
  "IMASK_value const4 pos width =
     push_bit 32 (ucast (push_bit (unat pos) (mask (unat width) :: 32 word)))
       OR ucast (push_bit (unat pos) const4)"

text \<open>The operands of a masked-insert node: value, position and width.\<close>

fun IMASK_operands :: "MachineSDNode \<Rightarrow> (32 word \<times> 32 word \<times> 32 word) option" where
  "IMASK_operands (MachineNode IMASKrcpw VT [TargetConstant c, TargetConstant p, TargetConstant w]) =
     Some (c, p, w)"
| "IMASK_operands n = None"

definition eval_IMASK :: "MachineSDNode \<Rightarrow> 64 word option" where
  "eval_IMASK n =
     (case IMASK_operands n of None \<Rightarrow> None | Some (c, p, w) \<Rightarrow> Some (IMASK_value c p w))"

text \<open>
  The encodings the hardware accepts, as the specification gives them: position and width
  in \<open>[0, 31]\<close> with position plus width at most 31, and a value that fits four bits.
\<close>

definition IMASK_legal :: "MachineSDNode \<Rightarrow> bool" where
  "IMASK_legal n \<longleftrightarrow>
     (case IMASK_operands n of
        None \<Rightarrow> False
      | Some (c, p, w) \<Rightarrow> unat p \<le> 31 \<and> unat w \<le> 31 \<and> unat p + unat w \<le> 31 \<and> unat c \<le> 15)"

section \<open>Failed matches\<close>

lemma MatchAddressBase_fail: "fst (MatchAddressBase N AM) \<Longrightarrow> snd (MatchAddressBase N AM) = AM"
  by (auto simp: MatchAddressBase_def split: if_splits)

lemma MatchAddress_fail_base:
  "fst (MatchAddress mvz N AM) \<Longrightarrow> MatchAddress mvz N AM = MatchAddressBase N AM"
  by (cases N) (auto simp: Let_def split: prod.splits if_splits bool.splits option.splits)

text \<open>
  C5: whenever \<open>MatchAddress\<close> reports failure, the addressing mode it leaves is the
  mode it was given: nothing written by a failed attempt survives, also not from the
  two orders tried for an addition or from the speculative fold of a bitwise or.
\<close>

theorem MatchAddress_failure_restores:
  "fst (MatchAddress mvz N AM) \<Longrightarrow> snd (MatchAddress mvz N AM) = AM"
  using MatchAddress_fail_base [of mvz N AM] MatchAddressBase_fail [of N AM] by simp

theorem MatchAddress_failure_restores_witness:
  "fst (MatchAddress (\<lambda>N C. False) (ISD_ADD (ISD_Other 1) (ISD_Other 2))
          ((TriCoreISelAddressMode_init 0)\<lparr>Base_Reg := Some (ISD_Other 3)\<rparr>))
   \<and> snd (MatchAddress (\<lambda>N C. False) (ISD_ADD (ISD_Other 1) (ISD_Other 2))
          ((TriCoreISelAddressMode_init 0)\<lparr>Base_Reg := Some (ISD_Other 3)\<rparr>))
       = (TriCoreISelAddressMode_init 0)\<lparr>Base_Reg := Some (ISD_Other 3)\<rparr>"
proof -
  have h: "fst (MatchAddress (\<lambda>N C. False) (ISD_ADD (ISD_Other 1) (ISD_Other 2))
          ((TriCoreISelAddressMode_init 0)\<lparr>Base_Reg := Some (ISD_Other 3)\<rparr>))"
    by (simp add: MatchAddressBase_def TriCoreISelAddressMode_init_def)
  show ?thesis using h MatchAddress_failure_restores [OF h] by simp
qed

section \<open>What the matchers write\<close>

lemma MatchWrapper_fields:
  "other_symbol_fields (snd (MatchWrapper (TriCoreISD_Wrapper N0) AM)) = other_symbol_fields AM"
  by (simp add: other_symbol_fields_def split: option.splits)

lemma MatchAddressBase_fields:
  "other_symbol_fields (snd (MatchAddressBase N AM)) = other_symbol_fields AM"
  by (simp add: other_symbol_fields_def MatchAddressBase_def)

lemma MatchAddress_ADD:
  "MatchAddress mvz (ISD_ADD N0 N1) AM =
     (if \<not> fst (MatchAddress mvz N0 AM) \<and> \<not> fst (MatchAddress mvz N1 (snd (MatchAddress mvz N0 AM)))
      then (False, snd (MatchAddress mvz N1 (snd (MatchAddress mvz N0 AM))))
      else if \<not> fst (MatchAddress mvz N1 AM) \<and> \<not> fst (MatchAddress mvz N0 (snd (MatchAddress mvz N1 AM)))
      then (False, snd (MatchAddress mvz N0 (snd (MatchAddress mvz N1 AM))))
      else MatchAddressBase (ISD_ADD N0 N1) AM)"
  by (simp add: Let_def split: prod.splits)

lemma MatchAddress_OR:
  "MatchAddress mvz (ISD_OR N0 N1) AM =
     (case dyn_cast_ConstantSDNode N1 of
        Some CN \<Rightarrow>
          if \<not> fst (MatchAddress mvz N0 AM) \<and> GV (snd (MatchAddress mvz N0 AM)) = None \<and> mvz N0 CN
          then (False, (snd (MatchAddress mvz N0 AM))
                  \<lparr>Disp := Disp (snd (MatchAddress mvz N0 AM)) + getSExtValue CN\<rparr>)
          else MatchAddressBase (ISD_OR N0 N1) AM
      | None \<Rightarrow> MatchAddressBase (ISD_OR N0 N1) AM)"
  by (simp add: Let_def split: prod.splits option.splits)

lemma other_symbol_fields_Disp [simp]: "other_symbol_fields (AM\<lparr>Disp := d\<rparr>) = other_symbol_fields AM"
  by (simp add: other_symbol_fields_def)

lemma other_symbol_fields_FrameIndex [simp]:
  "other_symbol_fields (AM\<lparr>BaseType := b, Base_FrameIndex := i\<rparr>) = other_symbol_fields AM"
  by (simp add: other_symbol_fields_def)

lemma MatchAddress_fields:
  "other_symbol_fields (snd (MatchAddress mvz N AM)) = other_symbol_fields AM"
proof (induction N arbitrary: AM)
  case (ISD_ADD N0 N1)
  then show ?case
    by (simp add: MatchAddress_ADD MatchAddressBase_fields del: MatchAddress.simps)
next
  case (ISD_OR N0 N1)
  then show ?case
    by (simp add: MatchAddress_OR MatchAddressBase_fields del: MatchAddress.simps split: option.splits)
next
  case (TriCoreISD_Wrapper N0)
  have "MatchAddress mvz (TriCoreISD_Wrapper N0) AM = MatchWrapper (TriCoreISD_Wrapper N0) AM
     \<or> MatchAddress mvz (TriCoreISD_Wrapper N0) AM = MatchAddressBase (TriCoreISD_Wrapper N0) AM"
    by (auto split: prod.splits bool.splits option.splits)
  then show ?case
    using MatchWrapper_fields [of N0 AM] MatchAddressBase_fields [of "TriCoreISD_Wrapper N0" AM]
    by auto
qed (simp_all add: MatchAddressBase_fields)

lemma SelectAddr_new_fields:
  "other_symbol_fields (snd (snd (snd (SelectAddr_new mvz fi N))))
     = other_symbol_fields (TriCoreISelAddressMode_init fi)"
proof -
  have "other_symbol_fields (AM\<lparr>Base_Reg := R\<rparr>) = other_symbol_fields AM" for AM R
    by (simp add: other_symbol_fields_def)
  then show ?thesis
    using MatchAddress_fields [of mvz N "TriCoreISelAddressMode_init fi"]
    by (auto simp: SelectAddr_new_def Let_def split: prod.splits bool.splits)
qed

lemma reachable_fields:
  "reachable_mode mvz AM \<Longrightarrow> CP AM = None \<and> ES AM = None \<and> JT AM = - 1 \<and> BlockAddr AM = None \<and> Align AM = 0"
proof (induction rule: reachable_mode.induct)
  case (fresh fi)
  show ?case by (simp add: TriCoreISelAddressMode_init_def)
next
  case (wrapper AM N0)
  then show ?case using MatchWrapper_fields [of N0 AM] by (simp add: other_symbol_fields_def)
next
  case (base AM N)
  then show ?case using MatchAddressBase_fields [of N AM] by (simp add: other_symbol_fields_def)
next
  case (address AM N)
  then show ?case using MatchAddress_fields [of mvz N AM] by (simp add: other_symbol_fields_def)
next
  case (select fi N)
  show ?case
    using SelectAddr_new_fields [of mvz fi N]
    by (simp add: other_symbol_fields_def TriCoreISelAddressMode_init_def)
qed

lemma reachable_hasSymbolicDisplacement:
  "reachable_mode mvz AM \<Longrightarrow> hasSymbolicDisplacement AM \<longleftrightarrow> GV AM \<noteq> None"
  using reachable_fields [of mvz AM] by (simp add: hasSymbolicDisplacement_def)

lemma MatchAddressBase_Disp: "Disp (snd (MatchAddressBase N AM)) = Disp AM"
  by (simp add: MatchAddressBase_def)

lemma MatchAddressBase_GV: "GV (snd (MatchAddressBase N AM)) = GV AM"
  by (simp add: MatchAddressBase_def)

section \<open>Additions over one base and constants\<close>

lemma MatchAddress_onlyConstants:
  "onlyConstants N \<Longrightarrow> MatchAddress mvz N AM = (False, AM\<lparr>Disp := Disp AM + constantSum N\<rparr>)"
proof (induction N arbitrary: AM)
  case (ISD_ADD N0 N1)
  then show ?case by (simp add: MatchAddress_ADD add.assoc del: MatchAddress.simps)
qed simp_all

lemma MatchAddress_chain_register:
  assumes "addChainOver (ISD_Other r) N" and "BaseType AM = RegBase" and "Base_Reg AM = None"
  shows "MatchAddress mvz N AM =
           (False, AM\<lparr>Base_Reg := Some (ISD_Other r), Disp := Disp AM + constantSum N\<rparr>)"
  using assms
proof (induction N arbitrary: AM)
  case (ISD_ADD N0 N1)
  from ISD_ADD.prems(1)
  consider "addChainOver (ISD_Other r) N0" "onlyConstants N1"
    | "onlyConstants N0" "addChainOver (ISD_Other r) N1"
    by auto
  then show ?case
  proof cases
    case 1
    then show ?thesis
      using ISD_ADD.IH(1) [OF 1(1) ISD_ADD.prems(2,3)]
      by (simp add: MatchAddress_ADD MatchAddress_onlyConstants add.assoc del: MatchAddress.simps)
  next
    case 2
    have "MatchAddress mvz N1 (AM\<lparr>Disp := Disp AM + constantSum N0\<rparr>) =
        (False, AM\<lparr>Disp := Disp AM + constantSum N0,
                    Base_Reg := Some (ISD_Other r),
                    Disp := Disp AM + constantSum N0 + constantSum N1\<rparr>)"
      using ISD_ADD.IH(2) [OF 2(2), of "AM\<lparr>Disp := Disp AM + constantSum N0\<rparr>"] ISD_ADD.prems(2,3)
      by simp
    then show ?thesis
      using 2(1)
      by (simp add: MatchAddress_ADD MatchAddress_onlyConstants add.assoc del: MatchAddress.simps)
  qed
next
  case (ISD_Other x)
  then show ?case by (simp add: MatchAddressBase_def)
qed simp_all

lemma MatchAddress_chain_frame:
  assumes "addChainOver (ISD_FrameIndex i) N" and "BaseType AM = RegBase" and "Base_Reg AM = None"
  shows "MatchAddress mvz N AM =
           (False, AM\<lparr>BaseType := FrameIndexBase, Base_FrameIndex := i,
                      Disp := Disp AM + constantSum N\<rparr>)"
  using assms
proof (induction N arbitrary: AM)
  case (ISD_ADD N0 N1)
  from ISD_ADD.prems(1)
  consider "addChainOver (ISD_FrameIndex i) N0" "onlyConstants N1"
    | "onlyConstants N0" "addChainOver (ISD_FrameIndex i) N1"
    by auto
  then show ?case
  proof cases
    case 1
    then show ?thesis
      using ISD_ADD.IH(1) [OF 1(1) ISD_ADD.prems(2,3)]
      by (simp add: MatchAddress_ADD MatchAddress_onlyConstants add.assoc del: MatchAddress.simps)
  next
    case 2
    have "MatchAddress mvz N1 (AM\<lparr>Disp := Disp AM + constantSum N0\<rparr>) =
        (False, AM\<lparr>Disp := Disp AM + constantSum N0,
                    BaseType := FrameIndexBase, Base_FrameIndex := i,
                    Disp := Disp AM + constantSum N0 + constantSum N1\<rparr>)"
      using ISD_ADD.IH(2) [OF 2(2), of "AM\<lparr>Disp := Disp AM + constantSum N0\<rparr>"] ISD_ADD.prems(2,3)
      by simp
    then show ?thesis
      using 2(1)
      by (simp add: MatchAddress_ADD MatchAddress_onlyConstants add.assoc del: MatchAddress.simps)
  qed
qed simp_all

lemma sint_constantSum: "sint (constantSum N) = signed_take_bit 63 (constantSum_int N)"
proof (induction N)
  case (ISD_ADD N0 N1)
  then show ?case by (simp add: sint_word_ariths signed_take_bit_add)
qed (simp_all add: sint_uint)

text \<open>
  C1, as amended: an address built from \<open>ISD::ADD\<close> nodes over integer constants and
  exactly one other leaf, in any grouping, matches from a fresh mode. A register-valued
  leaf becomes the register base, a frame index the frame-slot base, and the displacement
  is the sum of the sign-extended constants taken in \<open>int64_t\<close>: the integer sum reduced
  to 64 bits, which is the exact sum whenever that sum fits \<open>int64_t\<close>.
\<close>

theorem MatchAddress_add_chain:
  "(addChainOver (ISD_Other r) N \<longrightarrow>
      MatchAddress mvz N (TriCoreISelAddressMode_init fi) =
        (False, (TriCoreISelAddressMode_init fi)
                  \<lparr>Base_Reg := Some (ISD_Other r), Disp := constantSum N\<rparr>))
   \<and> (addChainOver (ISD_FrameIndex i) N \<longrightarrow>
      MatchAddress mvz N (TriCoreISelAddressMode_init fi) =
        (False, (TriCoreISelAddressMode_init fi)
                  \<lparr>BaseType := FrameIndexBase, Base_FrameIndex := i, Disp := constantSum N\<rparr>))
   \<and> sint (constantSum N) = signed_take_bit 63 (constantSum_int N)
   \<and> (- (2 ^ 63) \<le> constantSum_int N \<and> constantSum_int N < 2 ^ 63 \<longrightarrow>
        sint (constantSum N) = constantSum_int N)"
proof -
  have fresh: "BaseType (TriCoreISelAddressMode_init fi) = RegBase"
    "Base_Reg (TriCoreISelAddressMode_init fi) = None"
    "Disp (TriCoreISelAddressMode_init fi) = 0"
    by (simp_all add: TriCoreISelAddressMode_init_def)
  have exact: "sint (constantSum N) = constantSum_int N"
    if "- (2 ^ 63) \<le> constantSum_int N" and "constantSum_int N < 2 ^ 63"
  proof -
    have "signed_take_bit 63 (constantSum_int N) = constantSum_int N"
      using that by (rule signed_take_bit_int_eq_self)
    then show ?thesis by (simp only: sint_constantSum)
  qed
  show ?thesis
    using MatchAddress_chain_register [OF _ fresh(1,2), of r N mvz]
      MatchAddress_chain_frame [OF _ fresh(1,2), of i N mvz] exact
    by (simp add: fresh(3) sint_constantSum)
qed

theorem MatchAddress_add_chain_witness:
  "addChainOver (ISD_Other 7)
     (ISD_ADD (ISD_ADD (ISD_Constant (I32 4)) (ISD_Other 7)) (ISD_Constant (I32 (- 12))))
   \<and> MatchAddress MaskedValueIsZero_none
       (ISD_ADD (ISD_ADD (ISD_Constant (I32 4)) (ISD_Other 7)) (ISD_Constant (I32 (- 12))))
       (TriCoreISelAddressMode_init 0)
     = (False, (TriCoreISelAddressMode_init 0)\<lparr>Base_Reg := Some (ISD_Other 7), Disp := - 8\<rparr>)
   \<and> constantSum_int (ISD_ADD (ISD_ADD (ISD_Constant (I32 4)) (ISD_Other 7)) (ISD_Constant (I32 (- 12)))) = - 8
   \<and> sint (constantSum (ISD_ADD (ISD_ADD (ISD_Constant (I32 4)) (ISD_Other 7)) (ISD_Constant (I32 (- 12))))) = - 8
   \<and> addChainOver (ISD_FrameIndex 2)
     (ISD_ADD (ISD_Constant (I32 8)) (ISD_ADD (ISD_FrameIndex 2) (ISD_Constant (I32 16))))
   \<and> MatchAddress MaskedValueIsZero_none
       (ISD_ADD (ISD_Constant (I32 8)) (ISD_ADD (ISD_FrameIndex 2) (ISD_Constant (I32 16))))
       (TriCoreISelAddressMode_init 0)
     = (False, (TriCoreISelAddressMode_init 0)
                 \<lparr>BaseType := FrameIndexBase, Base_FrameIndex := 2, Disp := 24\<rparr>)"
proof -
  have a: "addChainOver (ISD_Other 7)
     (ISD_ADD (ISD_ADD (ISD_Constant (I32 4)) (ISD_Other 7)) (ISD_Constant (I32 (- 12))))"
    by simp
  have b: "addChainOver (ISD_FrameIndex 2)
     (ISD_ADD (ISD_Constant (I32 8)) (ISD_ADD (ISD_FrameIndex 2) (ISD_Constant (I32 16))))"
    by simp
  have s1: "constantSum (ISD_ADD (ISD_ADD (ISD_Constant (I32 4)) (ISD_Other 7)) (ISD_Constant (I32 (- 12)))) = - 8"
    by simp
  have s2: "constantSum (ISD_ADD (ISD_Constant (I32 8)) (ISD_ADD (ISD_FrameIndex 2) (ISD_Constant (I32 16)))) = 24"
    by simp
  have i1: "constantSum_int (ISD_ADD (ISD_ADD (ISD_Constant (I32 4)) (ISD_Other 7)) (ISD_Constant (I32 (- 12)))) = - 8"
    by simp
  have fits: "- (2 ^ 63) \<le> (- 8 :: int) \<and> (- 8 :: int) < 2 ^ 63"
    by simp
  have t1: "sint (constantSum (ISD_ADD (ISD_ADD (ISD_Constant (I32 4)) (ISD_Other 7)) (ISD_Constant (I32 (- 12))))) = - 8"
    using MatchAddress_add_chain [of 7 "ISD_ADD (ISD_ADD (ISD_Constant (I32 4)) (ISD_Other 7)) (ISD_Constant (I32 (- 12)))"
        MaskedValueIsZero_none 0 2] fits
    unfolding i1 by blast
  show ?thesis
    using a b i1 t1
      MatchAddress_add_chain [of 7 "ISD_ADD (ISD_ADD (ISD_Constant (I32 4)) (ISD_Other 7)) (ISD_Constant (I32 (- 12)))"
        MaskedValueIsZero_none 0 2]
      MatchAddress_add_chain [of 7 "ISD_ADD (ISD_Constant (I32 8)) (ISD_ADD (ISD_FrameIndex 2) (ISD_Constant (I32 16)))"
        MaskedValueIsZero_none 0 2]
    unfolding s1 s2 by blast
qed

text \<open>
  The claim as first stated promised the exact sum of the constants without the
  reduction. With the 64-bit constants \<open>2^63 - 1\<close> and \<open>1\<close> around a register leaf the
  match succeeds, the exact sum is \<open>2^63\<close>, and the displacement is \<open>- 2^63\<close>.
\<close>

theorem MatchAddress_add_chain_counterexample:
  "addChainOver (ISD_Other 7)
     (ISD_ADD (ISD_Constant (I64 0x7FFFFFFFFFFFFFFF)) (ISD_ADD (ISD_Other 7) (ISD_Constant (I64 1))))
   \<and> \<not> fst (MatchAddress MaskedValueIsZero_none
       (ISD_ADD (ISD_Constant (I64 0x7FFFFFFFFFFFFFFF)) (ISD_ADD (ISD_Other 7) (ISD_Constant (I64 1))))
       (TriCoreISelAddressMode_init 0))
   \<and> constantSum_int (ISD_ADD (ISD_Constant (I64 0x7FFFFFFFFFFFFFFF)) (ISD_ADD (ISD_Other 7) (ISD_Constant (I64 1)))) = 2 ^ 63
   \<and> sint (Disp (snd (MatchAddress MaskedValueIsZero_none
       (ISD_ADD (ISD_Constant (I64 0x7FFFFFFFFFFFFFFF)) (ISD_ADD (ISD_Other 7) (ISD_Constant (I64 1))))
       (TriCoreISelAddressMode_init 0)))) = - (2 ^ 63)
   \<and> sint (Disp (snd (MatchAddress MaskedValueIsZero_none
       (ISD_ADD (ISD_Constant (I64 0x7FFFFFFFFFFFFFFF)) (ISD_ADD (ISD_Other 7) (ISD_Constant (I64 1))))
       (TriCoreISelAddressMode_init 0))))
     \<noteq> constantSum_int (ISD_ADD (ISD_Constant (I64 0x7FFFFFFFFFFFFFFF)) (ISD_ADD (ISD_Other 7) (ISD_Constant (I64 1))))"
  by (simp add: MatchAddressBase_def TriCoreISelAddressMode_init_def)

section \<open>Bitwise or as addition\<close>

text \<open>
  C4: in a mode the matcher can hold, a bitwise-or node adds its constant to the
  displacement of the mode left by its left operand exactly when the right operand is a
  constant, the left operand alone matches, the mode it leaves carries no symbolic
  reference and the known-bits analysis proves the constant's bits clear in the left
  operand. In every other case matching continues with the base fallback on the mode as
  it was at entry, and the displacement is unchanged.
\<close>

theorem MatchAddress_OR_fold:
  assumes "reachable_mode mvz AM"
  shows "MatchAddress mvz (ISD_OR N0 N1) AM =
           (if OR_fold_condition mvz N0 N1 AM
            then (False, (snd (MatchAddress mvz N0 AM))
                    \<lparr>Disp := Disp (snd (MatchAddress mvz N0 AM))
                              + getSExtValue (the (dyn_cast_ConstantSDNode N1))\<rparr>)
            else MatchAddressBase (ISD_OR N0 N1) AM)
         \<and> (\<not> OR_fold_condition mvz N0 N1 AM \<longrightarrow>
              Disp (snd (MatchAddress mvz (ISD_OR N0 N1) AM)) = Disp AM)"
proof -
  have "reachable_mode mvz (snd (MatchAddress mvz N0 AM))"
    using assms by (rule reachable_mode.address)
  then have sym: "hasSymbolicDisplacement (snd (MatchAddress mvz N0 AM))
      \<longleftrightarrow> GV (snd (MatchAddress mvz N0 AM)) \<noteq> None"
    by (rule reachable_hasSymbolicDisplacement)
  have eq: "MatchAddress mvz (ISD_OR N0 N1) AM =
           (if OR_fold_condition mvz N0 N1 AM
            then (False, (snd (MatchAddress mvz N0 AM))
                    \<lparr>Disp := Disp (snd (MatchAddress mvz N0 AM))
                              + getSExtValue (the (dyn_cast_ConstantSDNode N1))\<rparr>)
            else MatchAddressBase (ISD_OR N0 N1) AM)"
    unfolding MatchAddress_OR OR_fold_condition_def using sym
    by (simp split: option.splits)
  show ?thesis using eq by (simp add: MatchAddressBase_Disp)
qed

theorem MatchAddress_OR_fold_witness:
  "reachable_mode MaskedValueIsZero_low2 (TriCoreISelAddressMode_init 0)
   \<and> OR_fold_condition MaskedValueIsZero_low2 (ISD_Other 1) (ISD_Constant (I32 3)) (TriCoreISelAddressMode_init 0)
   \<and> MatchAddress MaskedValueIsZero_low2 (ISD_OR (ISD_Other 1) (ISD_Constant (I32 3))) (TriCoreISelAddressMode_init 0)
       = (False, (TriCoreISelAddressMode_init 0)\<lparr>Base_Reg := Some (ISD_Other 1), Disp := 3\<rparr>)
   \<and> \<not> OR_fold_condition MaskedValueIsZero_none (ISD_Other 1) (ISD_Constant (I32 3)) (TriCoreISelAddressMode_init 0)
   \<and> MatchAddress MaskedValueIsZero_none (ISD_OR (ISD_Other 1) (ISD_Constant (I32 3))) (TriCoreISelAddressMode_init 0)
       = (False, (TriCoreISelAddressMode_init 0)
            \<lparr>Base_Reg := Some (ISD_OR (ISD_Other 1) (ISD_Constant (I32 3)))\<rparr>)"
proof -
  have r1: "reachable_mode MaskedValueIsZero_low2 (TriCoreISelAddressMode_init 0)"
    by (rule reachable_mode.fresh)
  have r2: "reachable_mode MaskedValueIsZero_none (TriCoreISelAddressMode_init 0)"
    by (rule reachable_mode.fresh)
  have c1: "OR_fold_condition MaskedValueIsZero_low2 (ISD_Other 1) (ISD_Constant (I32 3)) (TriCoreISelAddressMode_init 0)"
    by (simp add: OR_fold_condition_def MatchAddressBase_def TriCoreISelAddressMode_init_def
        hasSymbolicDisplacement_def MaskedValueIsZero_low2_def)
  have c2: "\<not> OR_fold_condition MaskedValueIsZero_none (ISD_Other 1) (ISD_Constant (I32 3)) (TriCoreISelAddressMode_init 0)"
    by (simp add: OR_fold_condition_def MaskedValueIsZero_none_def)
  show ?thesis
    using r1 c1 c2
      MatchAddress_OR_fold [OF r1, of "ISD_Other 1" "ISD_Constant (I32 3)"]
      MatchAddress_OR_fold [OF r2, of "ISD_Other 1" "ISD_Constant (I32 3)"]
    by (simp add: MatchAddressBase_def TriCoreISelAddressMode_init_def)
qed

section \<open>Wrappers\<close>

lemma hasSymbolicDisplacement_cong:
  "GV A = GV B \<Longrightarrow> other_symbol_fields A = other_symbol_fields B \<Longrightarrow>
     hasSymbolicDisplacement A = hasSymbolicDisplacement B"
  by (simp add: hasSymbolicDisplacement_def other_symbol_fields_def)

lemma MatchWrapper_symbolic:
  "hasSymbolicDisplacement AM \<Longrightarrow> MatchWrapper (TriCoreISD_Wrapper N0) AM = (True, AM)"
  by simp

lemma MatchAddress_symbolic_GV:
  "hasSymbolicDisplacement AM \<Longrightarrow> GV (snd (MatchAddress mvz N AM)) = GV AM"
proof (induction N arbitrary: AM)
  case (ISD_ADD N0 N1)
  have h0: "hasSymbolicDisplacement (snd (MatchAddress mvz N0 AM))"
    using ISD_ADD.prems ISD_ADD.IH(1) [OF ISD_ADD.prems]
      hasSymbolicDisplacement_cong [OF _ MatchAddress_fields, of mvz N0 AM]
    by simp
  have h1: "hasSymbolicDisplacement (snd (MatchAddress mvz N1 AM))"
    using ISD_ADD.prems ISD_ADD.IH(2) [OF ISD_ADD.prems]
      hasSymbolicDisplacement_cong [OF _ MatchAddress_fields, of mvz N1 AM]
    by simp
  show ?case
    using ISD_ADD.IH(1) [OF ISD_ADD.prems] ISD_ADD.IH(2) [OF ISD_ADD.prems]
      ISD_ADD.IH(1) [OF h1] ISD_ADD.IH(2) [OF h0]
    by (simp add: MatchAddress_ADD MatchAddressBase_GV del: MatchAddress.simps)
next
  case (ISD_OR N0 N1)
  then show ?case
    by (simp add: MatchAddress_OR MatchAddressBase_GV del: MatchAddress.simps split: option.splits)
qed (simp_all add: MatchAddressBase_GV)

text \<open>
  C6, as amended: when the mode already carries a symbolic reference, \<open>MatchWrapper\<close>
  fails on a wrapper node without changing the mode, and \<open>MatchAddress\<close> then applies the
  base fallback to the wrapper node: it fails when the base slot is occupied and otherwise
  records the wrapper node itself as the register base. Whatever node is matched in such a
  mode, the global value recorded stays and the mode stays symbolic: no second symbolic
  term is recorded.
\<close>

theorem MatchAddress_Wrapper_symbolic:
  assumes "hasSymbolicDisplacement AM"
  shows "MatchWrapper (TriCoreISD_Wrapper N0) AM = (True, AM)
    \<and> MatchAddress mvz (TriCoreISD_Wrapper N0) AM =
        (if BaseType AM \<noteq> RegBase \<or> Base_Reg AM \<noteq> None then (True, AM)
         else (False, AM\<lparr>BaseType := RegBase, Base_Reg := Some (TriCoreISD_Wrapper N0)\<rparr>))
    \<and> GV (snd (MatchAddress mvz N AM)) = GV AM
    \<and> hasSymbolicDisplacement (snd (MatchAddress mvz N AM))"
proof -
  have "hasSymbolicDisplacement (snd (MatchAddress mvz N AM))"
    using assms MatchAddress_symbolic_GV [OF assms, of mvz N]
      hasSymbolicDisplacement_cong [OF _ MatchAddress_fields, of mvz N AM]
    by simp
  then show ?thesis
    using assms MatchAddress_symbolic_GV [OF assms, of mvz N]
    by (simp add: MatchAddressBase_def)
qed

theorem MatchAddress_Wrapper_symbolic_witness:
  "hasSymbolicDisplacement (snd (MatchAddress MaskedValueIsZero_none
              (TriCoreISD_Wrapper (ISD_GlobalAddress ''a'' 0)) (TriCoreISelAddressMode_init 0)))
   \<and> MatchWrapper (TriCoreISD_Wrapper (ISD_GlobalAddress ''b'' 4)) (snd (MatchAddress MaskedValueIsZero_none
              (TriCoreISD_Wrapper (ISD_GlobalAddress ''a'' 0)) (TriCoreISelAddressMode_init 0)))
       = (True, (TriCoreISelAddressMode_init 0)\<lparr>GV := Some ''a''\<rparr>)
   \<and> MatchAddress MaskedValueIsZero_none (TriCoreISD_Wrapper (ISD_GlobalAddress ''b'' 4)) (snd (MatchAddress MaskedValueIsZero_none
              (TriCoreISD_Wrapper (ISD_GlobalAddress ''a'' 0)) (TriCoreISelAddressMode_init 0)))
       = (False, (TriCoreISelAddressMode_init 0)
           \<lparr>Base_Reg := Some (TriCoreISD_Wrapper (ISD_GlobalAddress ''b'' 4)), GV := Some ''a''\<rparr>)"
proof -
  have m: "(snd (MatchAddress MaskedValueIsZero_none
              (TriCoreISD_Wrapper (ISD_GlobalAddress ''a'' 0)) (TriCoreISelAddressMode_init 0))) = (TriCoreISelAddressMode_init 0)\<lparr>GV := Some ''a''\<rparr>"
    by (simp add: hasSymbolicDisplacement_def TriCoreISelAddressMode_init_def)
  have h: "hasSymbolicDisplacement ((TriCoreISelAddressMode_init 0)\<lparr>GV := Some ''a''\<rparr>)"
    by (simp add: hasSymbolicDisplacement_def)
  show ?thesis
    unfolding m
    using h MatchAddress_Wrapper_symbolic [OF h, of "ISD_GlobalAddress ''b'' 4" MaskedValueIsZero_none]
    by (simp add: TriCoreISelAddressMode_init_def)
qed

text \<open>
  The claim as first stated, that \<open>MatchAddress\<close> fails on such a wrapper, does not hold:
  after one wrapped global has been matched from a fresh mode, a second wrapper matches,
  as the register base.
\<close>

theorem MatchAddress_Wrapper_symbolic_counterexample:
  "hasSymbolicDisplacement (snd (MatchAddress MaskedValueIsZero_none
              (TriCoreISD_Wrapper (ISD_GlobalAddress ''a'' 0)) (TriCoreISelAddressMode_init 0)))
   \<and> \<not> fst (MatchAddress MaskedValueIsZero_none (TriCoreISD_Wrapper (ISD_GlobalAddress ''b'' 4))
         (snd (MatchAddress MaskedValueIsZero_none
              (TriCoreISD_Wrapper (ISD_GlobalAddress ''a'' 0)) (TriCoreISelAddressMode_init 0))))"
  by (simp add: hasSymbolicDisplacement_def TriCoreISelAddressMode_init_def MatchAddressBase_def)

text \<open>
  C9, as amended: on a wrapper node whose operand is not a global address, \<open>MatchWrapper\<close>
  leaves the mode as it is; it reports success when the mode carries no symbolic
  reference and failure when it carries one. None of the operations on a mode
  (\<open>MatchWrapper\<close>, \<open>MatchAddressBase\<close>, \<open>MatchAddress\<close>, \<open>SelectAddr_new\<close>) writes the
  \<open>CP\<close>, \<open>ES\<close>, \<open>JT\<close>, \<open>BlockAddr\<close> and \<open>Align\<close> fields, so in every mode the
  matcher can hold \<open>hasSymbolicDisplacement\<close> says that \<open>GV\<close> is set.
\<close>

theorem MatchWrapper_non_global:
  "(dyn_cast_GlobalAddressSDNode N0 = None \<longrightarrow>
      MatchWrapper (TriCoreISD_Wrapper N0) AM = (hasSymbolicDisplacement AM, AM))
   \<and> other_symbol_fields (snd (MatchWrapper (TriCoreISD_Wrapper N1) AM)) = other_symbol_fields AM
   \<and> other_symbol_fields (snd (MatchAddressBase N AM)) = other_symbol_fields AM
   \<and> other_symbol_fields (snd (MatchAddress mvz N AM)) = other_symbol_fields AM
   \<and> other_symbol_fields (snd (snd (snd (SelectAddr_new mvz fi N))))
        = other_symbol_fields (TriCoreISelAddressMode_init fi)
   \<and> (reachable_mode mvz AM \<longrightarrow> (hasSymbolicDisplacement AM \<longleftrightarrow> GV AM \<noteq> None))"
proof -
  have "MatchWrapper (TriCoreISD_Wrapper N0) AM = (hasSymbolicDisplacement AM, AM)"
    if "dyn_cast_GlobalAddressSDNode N0 = None"
    using that by simp
  then show ?thesis
    using reachable_hasSymbolicDisplacement [of mvz AM]
    by (simp add: MatchWrapper_fields MatchAddressBase_fields MatchAddress_fields
        SelectAddr_new_fields del: MatchWrapper.simps MatchAddress.simps)
qed

theorem MatchWrapper_non_global_witness:
  "dyn_cast_GlobalAddressSDNode (ISD_ExternalSymbol ''memcpy'') = None
   \<and> MatchWrapper (TriCoreISD_Wrapper (ISD_ExternalSymbol ''memcpy'')) (TriCoreISelAddressMode_init 0)
       = (False, TriCoreISelAddressMode_init 0)
   \<and> reachable_mode MaskedValueIsZero_none (TriCoreISelAddressMode_init 0)
   \<and> \<not> hasSymbolicDisplacement (TriCoreISelAddressMode_init 0)
   \<and> GV (TriCoreISelAddressMode_init 0) = None"
proof -
  have d: "dyn_cast_GlobalAddressSDNode (ISD_ExternalSymbol ''memcpy'') = None"
    by simp
  have r: "reachable_mode MaskedValueIsZero_none (TriCoreISelAddressMode_init 0)"
    by (rule reachable_mode.fresh)
  have g: "GV (TriCoreISelAddressMode_init 0) = None"
    by (simp add: TriCoreISelAddressMode_init_def)
  show ?thesis
    using d r g
      MatchWrapper_non_global [of "ISD_ExternalSymbol ''memcpy''" "TriCoreISelAddressMode_init 0"
        N1 N MaskedValueIsZero_none fi for N1 N fi]
    by simp
qed

text \<open>
  The claim as first stated, that \<open>MatchWrapper\<close> reports success on every such wrapper,
  does not hold in a mode that already carries a symbol: after a wrapped global has been
  matched, \<open>MatchWrapper\<close> reports failure on a wrapped external symbol.
\<close>

theorem MatchWrapper_non_global_counterexample:
  "dyn_cast_GlobalAddressSDNode (ISD_ExternalSymbol ''memcpy'') = None
   \<and> fst (MatchWrapper (TriCoreISD_Wrapper (ISD_ExternalSymbol ''memcpy''))
         (snd (MatchAddress MaskedValueIsZero_none
              (TriCoreISD_Wrapper (ISD_GlobalAddress ''a'' 0)) (TriCoreISelAddressMode_init 0))))"
  by (simp add: hasSymbolicDisplacement_def TriCoreISelAddressMode_init_def)

section \<open>Constants of 32 bits\<close>

subsection \<open>The halves of the value and the move-high immediate\<close>

lemma LoMask_eq: "(0xffff :: 64 word) = mask 16"
  by (simp add: mask_eq_exp_minus_1)

lemma HiMask_eq: "(0xffff0000 :: 64 word) = push_bit 16 (mask 16)"
  by (simp add: mask_eq_exp_minus_1 push_bit_eq_mult)

lemma ImmLo_ucast16:
  fixes v :: "32 word"
  shows "(ucast ((ucast v :: 64 word) AND 0xffff) :: 16 word) = ucast v"
  unfolding LoMask_eq by (rule bit_word_eqI) (auto simp: bit_simps)

lemma sint_scast_32_64: "sint (scast (v :: 32 word) :: 64 word) = sint v"
  by (rule sint_up_scast) (simp add: is_up)

lemma sint_scast_16_64: "sint (scast (w :: 16 word) :: 64 word) = sint w"
  by (rule sint_up_scast) (simp add: is_up)

lemma sint32_bounds:
  fixes v :: "32 word"
  shows "- 2147483648 \<le> sint v" "sint v < 2147483648"
  using sint_ge [of v] sint_lt [of v] by simp_all

lemma sint16_bounds:
  fixes w :: "16 word"
  shows "- 32768 \<le> sint w" "sint w < 32768"
  using sint_ge [of w] sint_lt [of w] by simp_all

lemma sint64_small:
  fixes k :: int
  assumes "- 9223372036854775808 \<le> k" "k < 9223372036854775808"
  shows "signed_take_bit 63 k = k"
  using assms by (intro signed_take_bit_int_eq_self) simp_all

lemma hiShift_raw_sint:
  fixes v :: "32 word"
  shows "sint (signed_drop_bit 16 ((scast v :: 64 word) - scast (ucast v :: 16 word)))
           = (sint v - sint (ucast v :: 16 word)) div 65536"
proof -
  have "sint ((scast v :: 64 word) - scast (ucast v :: 16 word))
      = signed_take_bit 63 (sint v - sint (ucast v :: 16 word))"
    by (simp add: sint_word_ariths sint_scast_32_64 sint_scast_16_64)
  also have "\<dots> = sint v - sint (ucast v :: 16 word)"
    using sint32_bounds [of v] sint16_bounds [of "ucast v"] by (intro sint64_small) linarith+
  finally show ?thesis
    by (simp add: sint_signed_drop_bit_eq drop_bit_eq_div)
qed

lemma sint_low16_cong:
  fixes v :: "32 word"
  shows "(sint v - sint (ucast v :: 16 word)) mod 65536 = 0"
proof -
  have a: "take_bit 16 (sint v) = take_bit 16 (uint v)"
    by (simp add: uint_sint [of v])
  have "take_bit 16 (sint (ucast v :: 16 word)) = uint (ucast v :: 16 word)"
    using uint_sint [of "ucast v :: 16 word"] by simp
  also have "\<dots> = take_bit 16 (uint v)"
    by (simp add: unsigned_ucast_eq)
  finally have "take_bit 16 (sint v) = take_bit 16 (sint (ucast v :: 16 word))"
    using a by simp
  then have "sint v mod 65536 = sint (ucast v :: 16 word) mod 65536"
    by (simp add: take_bit_eq_mod)
  then show ?thesis by (simp add: mod_diff_cong)
qed

lemma sint_mod_32: "sint (v :: 32 word) mod 4294967296 = uint v"
  using uint_sint [of v] by (simp add: take_bit_eq_mod)

lemma hiShift_quotient_exact:
  fixes v :: "32 word"
  shows "(sint v - sint (ucast v :: 16 word)) div 65536 * 65536 = sint v - sint (ucast v :: 16 word)"
  using sint_low16_cong [of v] by (simp add: mod_eq_0_iff_dvd)

lemma hiShift_quotient_bounds:
  fixes v :: "32 word"
  shows "- 32768 \<le> (sint v - sint (ucast v :: 16 word)) div 65536"
    and "(sint v - sint (ucast v :: 16 word)) div 65536 \<le> 32768"
proof -
  let ?q = "(sint v - sint (ucast v :: 16 word)) div 65536"
  have e: "?q * 65536 = sint v - sint (ucast v :: 16 word)" by (rule hiShift_quotient_exact)
  show "- 32768 \<le> ?q"
    using e sint32_bounds [of v] sint16_bounds [of "ucast v"] by linarith
  show "?q \<le> 32768"
    using e sint32_bounds [of v] sint16_bounds [of "ucast v"] by linarith
qed

lemma hiShift_of_sint:
  fixes v :: "32 word"
  shows "sint (hiShift_of ((ucast v :: 64 word) AND 0xffff) (scast v)) =
     (if (sint v - sint (ucast v :: 16 word)) div 65536 < 0
      then 65536 + (sint v - sint (ucast v :: 16 word)) div 65536
      else (sint v - sint (ucast v :: 16 word)) div 65536)"
proof -
  let ?q = "(sint v - sint (ucast v :: 16 word)) div 65536"
  let ?hs = "signed_drop_bit 16 ((scast v :: 64 word) - scast (ucast v :: 16 word))"
  have q: "sint ?hs = ?q" by (rule hiShift_raw_sint)
  have neg: "?hs <s 0 \<longleftrightarrow> ?q < 0" by (simp add: word_sless_alt q)
  have "sint (65536 + ?hs) = signed_take_bit 63 (65536 + ?q)"
    by (simp add: sint_word_ariths q)
  also have "\<dots> = 65536 + ?q"
    using hiShift_quotient_bounds [of v] by (intro sint64_small) linarith+
  finally have plus: "sint (65536 + ?hs) = 65536 + ?q" .
  show ?thesis
    unfolding hiShift_of_def ImmLo_ucast16 Let_def
    using neg plus q by simp
qed

lemma hiShift_of_range:
  fixes v :: "32 word"
  shows "0 \<le> sint (hiShift_of ((ucast v :: 64 word) AND 0xffff) (scast v))"
    and "sint (hiShift_of ((ucast v :: 64 word) AND 0xffff) (scast v)) < 65536"
  using hiShift_quotient_bounds [of v] by (simp_all add: hiShift_of_sint)

lemma hiShift_of_reconstructs:
  fixes v :: "32 word"
  shows "(sint (hiShift_of ((ucast v :: 64 word) AND 0xffff) (scast v)) * 65536
            + sint (ucast v :: 16 word)) mod 4294967296 = uint v"
proof -
  let ?q = "(sint v - sint (ucast v :: 16 word)) div 65536"
  let ?h = "sint (hiShift_of ((ucast v :: 64 word) AND 0xffff) (scast v))"
  have "?q * 65536 = sint v - sint (ucast v :: 16 word)"
    by (rule hiShift_quotient_exact)
  then have "?h * 65536 + sint (ucast v :: 16 word) = sint v
     \<or> ?h * 65536 + sint (ucast v :: 16 word) = sint v + 4294967296"
    by (auto simp: hiShift_of_sint algebra_simps)
  then have "(?h * 65536 + sint (ucast v :: 16 word)) mod 4294967296 = sint v mod 4294967296"
    by auto
  then show ?thesis by (simp add: sint_mod_32)
qed

lemma hiShift_of_operand:
  fixes v :: "32 word"
  shows "uint (ucast (hiShift_of ((ucast v :: 64 word) AND 0xffff) (scast v)) :: 32 word)
           = sint (hiShift_of ((ucast v :: 64 word) AND 0xffff) (scast v))"
proof -
  let ?h = "hiShift_of ((ucast v :: 64 word) AND 0xffff) (scast v)"
  have "uint ?h = take_bit 64 (sint ?h)" using uint_sint [of ?h] by simp
  also have "\<dots> = sint ?h"
    using hiShift_of_range [of v] by (intro take_bit_int_eq_self) simp_all
  finally have u: "uint ?h = sint ?h" .
  have "uint (ucast ?h :: 32 word) = take_bit 32 (uint ?h)"
    by (simp add: unsigned_ucast_eq)
  also have "\<dots> = uint ?h"
    using hiShift_of_range [of v] u by (intro take_bit_int_eq_self) simp_all
  finally show ?thesis using u by simp
qed

lemma SelectConstant_I32: "SelectConstant (I32 v) = SelectConstant_move (ucast v) (scast v)"
  by (simp add: SelectConstant_def)

lemma LoMask32_eq: "(0xffff :: 32 word) = mask 16"
  by (simp add: mask_eq_exp_minus_1)

lemma HiMask32_eq: "(0xffff0000 :: 32 word) = push_bit 16 (mask 16)"
  by (simp add: mask_eq_exp_minus_1 push_bit_eq_mult)

lemma ucast_AND_LoMask:
  fixes v :: "32 word"
  shows "(ucast v :: 64 word) AND 0xffff = ucast (v AND 0xffff)"
  unfolding LoMask_eq LoMask32_eq by (auto simp: bit_eq_iff bit_simps)

lemma ucast_AND_HiMask:
  fixes v :: "32 word"
  shows "(ucast v :: 64 word) AND 0xffff0000 = ucast (v AND 0xffff0000)"
  unfolding HiMask_eq HiMask32_eq by (auto simp: bit_eq_iff bit_simps)

lemma ucast_32_64_eq_0:
  fixes w :: "32 word"
  shows "(ucast w :: 64 word) = 0 \<longleftrightarrow> w = 0"
proof
  assume "(ucast w :: 64 word) = 0"
  then have "(ucast (ucast w :: 64 word) :: 32 word) = 0" by simp
  then show "w = 0" by (simp add: ucast_up_ucast_id is_up)
qed simp

lemma bit32_less:
  fixes v :: "32 word"
  shows "bit v n \<Longrightarrow> n < 32"
  using bit_imp_le_length [of v n] by simp

lemma low16_zero_iff:
  fixes v :: "32 word"
  shows "v AND 0xffff = 0 \<longleftrightarrow> (\<forall>n<16. \<not> bit v n)"
proof -
  have "v AND mask 16 = 0 \<longleftrightarrow> (\<forall>n. \<not> (bit v n \<and> n < 16))"
    using bit32_less [of v] by (auto simp: bit_eq_iff bit_simps)
  then show ?thesis unfolding LoMask32_eq by blast
qed

lemma high16_zero_iff:
  fixes v :: "32 word"
  shows "v AND 0xffff0000 = 0 \<longleftrightarrow> (\<forall>n\<ge>16. \<not> bit v n)"
proof -
  have "v AND push_bit 16 (mask 16) = 0 \<longleftrightarrow> (\<forall>n. \<not> (bit v n \<and> 16 \<le> n \<and> n < 32))"
    by (auto simp: bit_eq_iff bit_simps)
  also have "\<dots> \<longleftrightarrow> (\<forall>n\<ge>16. \<not> bit v n)"
    using bit_imp_le_length [of v] by fastforce
  finally show ?thesis unfolding HiMask32_eq .
qed

lemma drop16_zero_iff:
  fixes v :: "32 word"
  shows "drop_bit 16 v = 0 \<longleftrightarrow> (\<forall>n\<ge>16. \<not> bit v n)"
proof -
  have "drop_bit 16 v = 0 \<longleftrightarrow> (\<forall>n. \<not> bit v (16 + n))"
    using bit32_less [of v] by (fastforce simp: bit_eq_iff bit_simps)
  also have "\<dots> \<longleftrightarrow> (\<forall>n\<ge>16. \<not> bit v n)"
    by (metis le_add1 le_Suc_ex)
  finally show ?thesis .
qed

lemma low_half_cases:
  fixes v :: "32 word"
  assumes "v AND 0xffff = 0" and "v AND 0xffff0000 = 0"
  shows "v = 0"
proof -
  have "\<not> bit v n" for n
    using assms unfolding low16_zero_iff high16_zero_iff by (cases "n < 16") auto
  then show ?thesis by (simp add: bit_eq_iff)
qed

lemma high_half_zero_less:
  fixes v :: "32 word"
  assumes "v AND 0xffff0000 = 0"
  shows "v AND 0xffff = v" and "uint v < 65536"
proof -
  show a: "v AND 0xffff = v"
  proof -
    have "\<not> bit v n" if "\<not> n < 16" for n
      using assms that unfolding high16_zero_iff by simp
    then show ?thesis
      unfolding LoMask32_eq by (auto simp: bit_eq_iff bit_simps)
  qed
  have "uint (v AND mask 16) < 2 ^ 16"
    unfolding take_bit_eq_mask [symmetric]
    using take_bit_int_less_exp [of 16 "uint v"] by (simp add: unsigned_take_bit_eq)
  then show "uint v < 65536" using a unfolding LoMask32_eq by simp
qed

lemma sint_nonneg_eq_uint:
  fixes v :: "32 word"
  assumes "uint v < 2147483648"
  shows "sint v = uint v"
proof -
  have "- (2 ^ 31) \<le> uint v" by (rule order_trans [of _ 0]) simp_all
  moreover have "uint v < 2 ^ 31" using assms by simp
  ultimately have "signed_take_bit 31 (uint v) = uint v"
    by (rule signed_take_bit_int_eq_self)
  then show ?thesis by (simp add: sint_uint)
qed

lemma sle_scast_32_64:
  fixes v :: "32 word"
  shows "0 \<le>s (scast v :: 64 word) \<longleftrightarrow> 0 \<le> sint v"
    and "(scast v :: 64 word) <s 32768 \<longleftrightarrow> sint v < 32768"
    and "32768 \<le>s (scast v :: 64 word) \<longleftrightarrow> 32768 \<le> sint v"
    and "(scast v :: 64 word) <s 65536 \<longleftrightarrow> sint v < 65536"
    and "(scast v :: 64 word) <s 0 \<longleftrightarrow> sint v < 0"
    and "- 32768 \<le>s (scast v :: 64 word) \<longleftrightarrow> - 32768 \<le> sint v"
  by (simp_all add: word_sle_eq word_sless_alt sint_scast_32_64)

lemma getTargetConstant_ucast:
  fixes v :: "32 word"
  shows "getTargetConstant (ucast v) = TargetConstant v"
  by (simp add: getTargetConstant_def ucast_up_ucast_id is_up)

lemma hiShift_of_0: "hiShift_of 0 0 = 0"
  by (simp add: hiShift_of_def)

lemma low16_ucast16_0:
  fixes v :: "32 word"
  assumes "v AND 0xffff = 0"
  shows "(ucast v :: 16 word) = 0"
proof -
  have "(ucast v :: 16 word) = ucast ((ucast v :: 64 word) AND 0xffff)"
    by (simp only: ImmLo_ucast16)
  also have "\<dots> = 0" by (simp only: ucast_AND_LoMask assms ucast_0)
  finally show ?thesis .
qed

lemma hiShift_of_low_zero:
  fixes v :: "32 word"
  assumes "v AND 0xffff = 0"
  shows "(ucast (hiShift_of ((ucast v :: 64 word) AND 0xffff) (scast v)) :: 32 word) = drop_bit 16 v"
proof -
  let ?h = "hiShift_of ((ucast v :: 64 word) AND 0xffff) (scast v)"
  have r: "(sint ?h * 65536) mod 4294967296 = uint v"
    using hiShift_of_reconstructs [of v] by (simp add: low16_ucast16_0 [OF assms])
  have "sint ?h * 65536 = uint v"
    using r hiShift_of_range [of v] by simp
  then have "sint ?h = uint v div 65536" by simp
  also have "\<dots> = uint (drop_bit 16 v)"
    by (simp add: drop_bit_eq_div uint_div_distrib)
  finally have "uint (ucast ?h :: 32 word) = uint (drop_bit 16 v)"
    by (simp only: hiShift_of_operand)
  then show ?thesis by (simp only: word_uint_eq_iff)
qed

lemma SelectConstant_move_MOVH:
  "(ImmVal AND 0xffff0000 \<noteq> 0 \<longrightarrow>
      hd (snd (SelectConstant_move ImmVal ImmSVal)) =
        MachineNode MOVHrlc MVT_i32 [getTargetConstant (hiShift_of (ImmVal AND 0xffff) ImmSVal)])
   \<and> (\<forall>n \<in> set (snd (SelectConstant_move ImmVal ImmSVal)).
        getMachineOpcode n = MOVHrlc \<longrightarrow>
          n = MachineNode MOVHrlc MVT_i32 [getTargetConstant (hiShift_of (ImmVal AND 0xffff) ImmSVal)])"
  by (simp add: SelectConstant_move_def getMachineNode_def Let_def)

subsection \<open>Single moves\<close>

text \<open>
  C8: a 32-bit constant whose high 16 bits are zero is materialized by one node that
  carries the value itself: a signed move (\<open>MOVrlc\<close>) when the low 16 bits are below
  32768, an unsigned move (\<open>MOVUrlc\<close>) when they are 32768 or more. No other node is
  created.
\<close>

theorem SelectConstant_narrow_moves:
  fixes v :: "32 word"
  shows "(drop_bit 16 v = 0 \<and> v AND 0xffff < 32768 \<longrightarrow>
            SelectConstant (I32 v) =
              (Selected (MachineNode MOVrlc MVT_i32 [TargetConstant v]),
               [MachineNode MOVrlc MVT_i32 [TargetConstant v]]))
       \<and> (drop_bit 16 v = 0 \<and> 32768 \<le> v AND 0xffff \<longrightarrow>
            SelectConstant (I32 v) =
              (Selected (MachineNode MOVUrlc MVT_i32 [TargetConstant v]),
               [MachineNode MOVUrlc MVT_i32 [TargetConstant v]]))"
proof (cases "drop_bit 16 v = 0")
  case True
  then have hi: "v AND 0xffff0000 = 0" by (simp add: high16_zero_iff drop16_zero_iff)
  note lo = high_half_zero_less [OF hi]
  have s: "sint v = uint v" using lo(2) by (intro sint_nonneg_eq_uint) simp
  have ImmHi: "(ucast v :: 64 word) AND 0xffff0000 = 0"
    by (simp only: ucast_AND_HiMask hi ucast_0)
  have ImmLo: "(ucast v :: 64 word) AND 0xffff = ucast v"
    by (simp only: ucast_AND_LoMask lo(1))
  show ?thesis
  proof (cases "v = 0")
    case True
    then show ?thesis
      by (simp add: SelectConstant_I32 SelectConstant_move_def getMachineNode_def hiShift_of_0
          getTargetConstant_def Let_def)
  next
    case False
    then have nz: "(ucast v :: 64 word) \<noteq> 0" by (simp add: ucast_32_64_eq_0)
    have lt: "v < 32768 \<longleftrightarrow> uint v < 32768" "32768 \<le> v \<longleftrightarrow> 32768 \<le> uint v"
      by (simp_all add: word_less_def word_le_def)
    show ?thesis
      using nz lo(2)
      by (simp add: SelectConstant_I32 SelectConstant_move_def getMachineNode_def ImmHi ImmLo lo(1)
          sle_scast_32_64 s lt getTargetConstant_ucast Let_def)
  qed
qed simp

theorem SelectConstant_narrow_moves_witness:
  "drop_bit 16 (0x7fff :: 32 word) = 0 \<and> (0x7fff :: 32 word) AND 0xffff < 32768
   \<and> SelectConstant (I32 0x7fff) =
        (Selected (MachineNode MOVrlc MVT_i32 [TargetConstant 0x7fff]),
         [MachineNode MOVrlc MVT_i32 [TargetConstant 0x7fff]])
   \<and> drop_bit 16 (0x8000 :: 32 word) = 0 \<and> 32768 \<le> (0x8000 :: 32 word) AND 0xffff
   \<and> SelectConstant (I32 0x8000) =
        (Selected (MachineNode MOVUrlc MVT_i32 [TargetConstant 0x8000]),
         [MachineNode MOVUrlc MVT_i32 [TargetConstant 0x8000]])"
  using SelectConstant_narrow_moves [of "0x7fff"] SelectConstant_narrow_moves [of "0x8000"]
  by simp

text \<open>
  C7, as amended: a non-zero 32-bit constant whose low 16 bits are zero is materialized by
  a single move-high (\<open>MOVHrlc\<close>) whose immediate is the high 16 bits of the value; the
  all-zero value is materialized by a single signed move (\<open>MOVrlc\<close>) with immediate zero.
\<close>

theorem SelectConstant_low_half_zero:
  fixes v :: "32 word"
  shows "(v AND 0xffff = 0 \<and> v \<noteq> 0 \<longrightarrow>
            SelectConstant (I32 v) =
              (Selected (MachineNode MOVHrlc MVT_i32 [TargetConstant (drop_bit 16 v)]),
               [MachineNode MOVHrlc MVT_i32 [TargetConstant (drop_bit 16 v)]]))
       \<and> SelectConstant (I32 0) =
              (Selected (MachineNode MOVrlc MVT_i32 [TargetConstant 0]),
               [MachineNode MOVrlc MVT_i32 [TargetConstant 0]])"
proof -
  have zero: "SelectConstant (I32 0) =
              (Selected (MachineNode MOVrlc MVT_i32 [TargetConstant 0]),
               [MachineNode MOVrlc MVT_i32 [TargetConstant 0]])"
    by (simp add: SelectConstant_I32 SelectConstant_move_def getMachineNode_def hiShift_of_0
          getTargetConstant_def Let_def)
  have high: "SelectConstant (I32 v) =
              (Selected (MachineNode MOVHrlc MVT_i32 [TargetConstant (drop_bit 16 v)]),
               [MachineNode MOVHrlc MVT_i32 [TargetConstant (drop_bit 16 v)]])"
    if lo: "v AND 0xffff = 0" and nz: "v \<noteq> 0"
  proof -
    have hi: "v AND 0xffff0000 \<noteq> 0" using low_half_cases [OF lo] nz by blast
    have ImmLo: "(ucast v :: 64 word) AND 0xffff = 0"
      by (simp only: ucast_AND_LoMask lo ucast_0)
    have "(ucast v :: 64 word) AND 0xffff0000 = 0 \<longleftrightarrow> v AND 0xffff0000 = 0"
      by (simp only: ucast_AND_HiMask ucast_32_64_eq_0)
    then have ImmHi: "(ucast v :: 64 word) AND 0xffff0000 \<noteq> 0"
      using hi by blast
    have op: "getTargetConstant (hiShift_of 0 (scast v)) = TargetConstant (drop_bit 16 v)"
      using hiShift_of_low_zero [OF lo] by (simp add: getTargetConstant_def ImmLo)
    show ?thesis
      using ImmHi
      by (simp add: SelectConstant_I32 SelectConstant_move_def getMachineNode_def ImmLo op Let_def)
  qed
  show ?thesis using zero high by blast
qed

theorem SelectConstant_low_half_zero_witness:
  "(0x12340000 :: 32 word) AND 0xffff = 0 \<and> (0x12340000 :: 32 word) \<noteq> 0
   \<and> SelectConstant (I32 0x12340000) =
        (Selected (MachineNode MOVHrlc MVT_i32 [TargetConstant 0x1234]),
         [MachineNode MOVHrlc MVT_i32 [TargetConstant 0x1234]])"
  using SelectConstant_low_half_zero [of "0x12340000"] by simp

text \<open>
  The claim as first stated also promised a move-high for the all-zero value. The branch
  for two zero halves creates a \<open>MOVrlc\<close> node, and no \<open>MOVHrlc\<close> node at all.
\<close>

theorem SelectConstant_low_half_zero_counterexample:
  "(0 :: 32 word) AND 0xffff = 0
   \<and> snd (SelectConstant (I32 0)) = [MachineNode MOVrlc MVT_i32 [TargetConstant 0]]
   \<and> MOVHrlc \<notin> set (map getMachineOpcode (snd (SelectConstant (I32 0))))"
  by (simp add: SelectConstant_I32 SelectConstant_move_def getMachineNode_def hiShift_of_0
          getTargetConstant_def Let_def)

subsection \<open>The move-high immediate\<close>

text \<open>
  C10: for a 32-bit constant, the immediate \<open>hiShift\<close> of the move-high lies in
  \<open>[0, 2^16)\<close>, and shifted left by 16 and added to the sign-extended low 16 bits of the
  value it gives the value modulo \<open>2^32\<close>. It reaches the node unchanged: whenever the
  high half is not zero (a lone move-high, or a move-high followed by an add) the first
  node created is \<open>MOVHrlc\<close> with that immediate, and no other \<open>MOVHrlc\<close> node is created.
\<close>

theorem SelectConstant_hiShift:
  fixes v :: "32 word"
  shows "(let hiShift = hiShift_of (getZExtValue (I32 v) AND 0xffff) (getSExtValue (I32 v)) in
          0 \<le> sint hiShift \<and> sint hiShift < 2 ^ 16
          \<and> (sint hiShift * 2 ^ 16 + sint (ucast v :: 16 word)) mod 2 ^ 32 = uint v
          \<and> uint (ucast hiShift :: 32 word) = sint hiShift
          \<and> (v AND 0xffff0000 \<noteq> 0 \<longrightarrow>
                hd (snd (SelectConstant (I32 v))) =
                  MachineNode MOVHrlc MVT_i32 [TargetConstant (ucast hiShift)])
          \<and> (\<forall>n \<in> set (snd (SelectConstant (I32 v))).
                getMachineOpcode n = MOVHrlc \<longrightarrow>
                  n = MachineNode MOVHrlc MVT_i32 [TargetConstant (ucast hiShift)]))"
proof -
  have "(ucast v :: 64 word) AND 0xffff0000 = 0 \<longleftrightarrow> v AND 0xffff0000 = 0"
    by (simp only: ucast_AND_HiMask ucast_32_64_eq_0)
  then show ?thesis
    using hiShift_of_range [of v] hiShift_of_reconstructs [of v] hiShift_of_operand [of v]
      SelectConstant_move_MOVH [of "ucast v" "scast v"]
    by (simp add: Let_def SelectConstant_I32 getTargetConstant_def)
qed

theorem SelectConstant_hiShift_witness:
  "(0x1234ffff :: 32 word) AND 0xffff0000 \<noteq> 0
   \<and> hiShift_of (getZExtValue (I32 0x1234ffff) AND 0xffff) (getSExtValue (I32 0x1234ffff)) = 0x1235
   \<and> hd (snd (SelectConstant (I32 0x1234ffff))) = MachineNode MOVHrlc MVT_i32 [TargetConstant 0x1235]
   \<and> (0x1235 * 2 ^ 16 + sint (ucast (0x1234ffff :: 32 word) :: 16 word)) mod 2 ^ 32
        = uint (0x1234ffff :: 32 word)"
proof -
  have h: "hiShift_of (getZExtValue (I32 0x1234ffff) AND 0xffff) (getSExtValue (I32 0x1234ffff)) = 0x1235"
    by (simp add: hiShift_of_def word_sless_alt)
  have nz: "(0x1234ffff :: 32 word) AND 0xffff0000 \<noteq> 0" by simp
  show ?thesis
    using SelectConstant_hiShift [of "0x1234ffff"] nz unfolding h Let_def
    by simp
qed

section \<open>Constants of 64 bits\<close>

subsection \<open>The bit helpers on a run of ones\<close>

text \<open>
  The parallel bit count is checked on every run of ones in a 32-bit word (every start
  and length) by evaluation.
\<close>

lemma popcount_masks_all:
  "list_all (\<lambda>pos. list_all (\<lambda>len. getNumSetBits (push_bit pos (mask len)) = of_nat len) [0..<33 - pos]) [0..<32]"
  by code_simp

lemma getNumSetBits_run:
  assumes "pos < 32" and "pos + len \<le> 32"
  shows "getNumSetBits (push_bit pos (mask len)) = of_nat len"
proof -
  have "pos \<in> set [0..<32]" using assms by simp
  moreover have "len \<in> set [0..<33 - pos]" using assms by simp
  ultimately show ?thesis
    using popcount_masks_all unfolding list_all_iff by blast
qed

lemma bit_run_iff:
  fixes pos len :: nat
  assumes "pos + len \<le> 32"
  shows "bit (push_bit pos (mask len) :: 32 word) n \<longleftrightarrow> pos \<le> n \<and> n < pos + len"
  using assms by (auto simp: bit_simps)

lemma run_nonzero:
  assumes "1 \<le> len" and "pos + len \<le> 32"
  shows "(push_bit pos (mask len) :: 32 word) \<noteq> 0"
proof
  assume "(push_bit pos (mask len) :: 32 word) = 0"
  then have "\<not> bit (push_bit pos (mask len) :: 32 word) pos" by simp
  then show False using assms by (simp add: bit_run_iff)
qed

lemma find_first_bit:
  assumes "P i" and "\<forall>j<i. \<not> P j" and "i < n"
  shows "find P [0..<n] = Some i"
proof -
  have "\<forall>j<i. \<not> P ([0..<n] ! j)"
  proof (intro allI impI)
    fix j assume "j < i"
    then have "j < n" using assms(3) by simp
    then have "[0..<n] ! j = j" by simp
    then show "\<not> P ([0..<n] ! j)" using assms(2) \<open>j < i\<close> by simp
  qed
  moreover have "[0..<n] ! i = i" using assms(3) by simp
  ultimately have "i < length [0..<n] \<and> P ([0..<n] ! i) \<and> i = [0..<n] ! i \<and> (\<forall>j<i. \<not> P ([0..<n] ! j))"
    using assms(1,3) by simp
  then show ?thesis unfolding find_Some_iff by blast
qed

lemma getFFS_run:
  assumes "1 \<le> len" and "pos + len \<le> 32"
  shows "getFFS (push_bit pos (mask len)) = of_nat pos + 1"
proof -
  have "find (bit (push_bit pos (mask len) :: 32 word)) [0..<32] = Some pos"
    using assms by (intro find_first_bit) (simp_all add: bit_run_iff)
  then show ?thesis by (simp add: getFFS_def builtin_ffs_def)
qed

lemma getFFS_nonzero:
  assumes "x \<noteq> 0"
  shows "\<exists>i<32. getFFS x = of_nat i + 1"
proof -
  obtain n where n: "bit x n" using assms by (auto simp: bit_eq_iff)
  then have "n < 32" using bit_imp_le_length [of x n] by simp
  then have "n \<in> set [0..<32]" by simp
  with n have "find (bit x) [0..<32] \<noteq> None" unfolding find_None_iff by blast
  then obtain i where i: "find (bit x) [0..<32] = Some i" by blast
  then have "i \<in> set [0..<32]" unfolding find_Some_iff by (metis nth_mem)
  then have "i < 32" by simp
  then show ?thesis using i by (auto simp: getFFS_def builtin_ffs_def)
qed

lemma run_step:
  assumes "pos + Suc len \<le> 32"
  shows "(push_bit pos (mask (Suc len)) :: 32 word) AND push_bit 1 (push_bit pos (mask (Suc len)))
           = push_bit (Suc pos) (mask len)"
proof (rule bit_word_eqI)
  fix n assume "n < LENGTH(32)"
  have a: "pos + Suc len \<le> 32" "Suc pos + len \<le> 32" using assms by simp_all
  show "bit ((push_bit pos (mask (Suc len)) :: 32 word) AND push_bit 1 (push_bit pos (mask (Suc len)))) n
      \<longleftrightarrow> bit (push_bit (Suc pos) (mask len) :: 32 word) n"
    unfolding bit_and_iff bit_shl1_iff bit_run_iff [OF a(1)] bit_run_iff [OF a(2)]
    using \<open>n < LENGTH(32)\<close> by auto
qed

lemma getNumConsecutiveOnes_loop_run:
  assumes "pos + len \<le> 32"
  shows "getNumConsecutiveOnes_loop (push_bit pos (mask len)) count = count + of_nat len"
  using assms
proof (induction len arbitrary: pos count)
  case 0
  then show ?case by (simp add: getNumConsecutiveOnes_loop.simps)
next
  case (Suc len)
  have nz: "(push_bit pos (mask (Suc len)) :: 32 word) \<noteq> 0"
    using Suc.prems by (intro run_nonzero) simp_all
  have "getNumConsecutiveOnes_loop (push_bit pos (mask (Suc len))) count
      = getNumConsecutiveOnes_loop (push_bit (Suc pos) (mask len)) (count + 1)"
    using nz run_step [OF Suc.prems]
    by (subst getNumConsecutiveOnes_loop.simps) simp
  also have "\<dots> = count + 1 + of_nat len"
    using Suc.prems by (intro Suc.IH) simp
  finally show ?case by simp
qed

lemma getNumConsecutiveOnes_run:
  assumes "pos + len \<le> 32"
  shows "getNumConsecutiveOnes (push_bit pos (mask len)) = of_nat len"
  using getNumConsecutiveOnes_loop_run [OF assms, of 0] by (simp add: getNumConsecutiveOnes_def)

subsection \<open>Bounds on the operands\<close>

lemma uint_of_nat32:
  "n < 4294967296 \<Longrightarrow> uint (of_nat n :: 32 word) = int n"
  by (simp add: unsigned_of_nat take_bit_nat_eq_self)

lemma shift_and_low_bits:
  fixes inp :: "32 word"
  assumes "take_bit k inp = 0"
  shows "take_bit (Suc k) (inp AND push_bit 1 inp) = 0"
proof (rule bit_word_eqI)
  fix n assume "n < LENGTH(32)"
  have low: "\<not> bit inp m" if "m < k" for m
    using arg_cong [OF assms, of "\<lambda>w. bit w m"] that by (simp add: bit_simps)
  have "\<not> (bit inp n \<and> bit (push_bit 1 inp) n)" if "n < Suc k"
  proof (cases "n < k")
    case True
    then show ?thesis using low by blast
  next
    case False
    then have "n = k" using that by simp
    then show ?thesis using low [of "k - 1"] unfolding bit_shl1_iff by (cases k) auto
  qed
  then show "bit (take_bit (Suc k) (inp AND push_bit 1 inp)) n \<longleftrightarrow> bit (0 :: 32 word) n"
    unfolding bit_take_bit_iff bit_and_iff by auto
qed

lemma getNumConsecutiveOnes_loop_bound:
  "take_bit k inp = 0 \<Longrightarrow> k \<le> 32 \<Longrightarrow> count = of_nat k \<Longrightarrow>
     uint (getNumConsecutiveOnes_loop inp count) \<le> 32"
proof (induction inp count arbitrary: k rule: getNumConsecutiveOnes_loop.induct)
  case (1 inp count)
  show ?case
  proof (cases "inp = 0")
    case True
    have "uint (of_nat k :: 32 word) = int k"
      using "1.prems"(2) by (intro uint_of_nat32) simp
    then show ?thesis
      using True "1.prems" by (simp add: getNumConsecutiveOnes_loop.simps)
  next
    case False
    have "k \<noteq> 32"
    proof
      assume "k = 32"
      then have "take_bit 32 inp = 0" using "1.prems"(1) by simp
      moreover have "take_bit 32 inp = inp" by (rule take_bit_word_eq_self) simp
      ultimately show False using False by simp
    qed
    then have k: "Suc k \<le> 32" using "1.prems"(2) by simp
    have "uint (getNumConsecutiveOnes_loop (inp AND push_bit 1 inp) (count + 1)) \<le> 32"
      using "1.IH" [OF False shift_and_low_bits [OF "1.prems"(1)] k] "1.prems"(3) by simp
    then show ?thesis
      using False by (subst getNumConsecutiveOnes_loop.simps) simp
  qed
qed

lemma getNumConsecutiveOnes_bound: "uint (getNumConsecutiveOnes inp) \<le> 32"
  unfolding getNumConsecutiveOnes_def
  by (rule getNumConsecutiveOnes_loop_bound [of 0]) simp_all

lemma ucast_scast_32:
  fixes c :: "32 word"
  shows "(ucast (scast c :: 64 word) :: 32 word) = c"
  by (rule bit_word_eqI) (auto simp: bit_simps)

lemma getTargetConstant_scast:
  fixes c :: "32 word"
  shows "getTargetConstant (scast c) = TargetConstant c"
  by (simp add: getTargetConstant_def ucast_scast_32)

lemma uint_scast_small:
  fixes c :: "32 word"
  assumes "uint c < 2147483648"
  shows "uint (scast c :: 64 word) = uint c"
proof -
  have "uint (scast c :: 64 word) = take_bit 64 (sint (scast c :: 64 word))"
    using uint_sint [of "scast c :: 64 word"] by simp
  also have "\<dots> = take_bit 64 (uint c)"
    by (simp only: sint_scast_32_64 sint_nonneg_eq_uint [OF assms])
  also have "\<dots> = uint c"
    using assms by (intro take_bit_int_eq_self) simp_all
  finally show ?thesis .
qed

lemma uint_ucast_64_32_le:
  fixes x :: "64 word"
  shows "uint (ucast x :: 32 word) \<le> uint x"
  by (simp add: unsigned_ucast_eq take_bit_int_less_eq_self_iff)

lemma small_count_cases:
  fixes cnt :: "32 word"
  assumes "\<not> 4 < (scast cnt :: 64 word)"
  shows "cnt = 0 \<or> cnt = 1 \<or> cnt = 2 \<or> cnt = 3 \<or> cnt = 4"
proof -
  have "uint (scast cnt :: 64 word) \<le> 4" using assms by (simp add: word_less_def not_less)
  then have "uint cnt \<le> 4"
    using uint_ucast_64_32_le [of "scast cnt"] by (simp add: ucast_scast_32)
  moreover have "0 \<le> uint cnt" by simp
  ultimately have "uint cnt = 0 \<or> uint cnt = 1 \<or> uint cnt = 2 \<or> uint cnt = 3 \<or> uint cnt = 4"
    by arith
  then show ?thesis by (auto simp: word_uint_eq_iff)
qed

lemma ipow_small:
  "ipow 0 = 1" "ipow 1 = 2" "ipow 2 = 4" "ipow 3 = 8" "ipow 4 = 16"
  by (simp_all add: ipow_def ipow_loop.simps word_sless_alt)

lemma Const4Val_bound:
  fixes cnt :: "32 word"
  assumes "\<not> 4 < (scast cnt :: 64 word)"
  shows "unat (ipow cnt - 1) \<le> 15"
  using small_count_cases [OF assms] by (auto simp: ipow_small)

lemma posLSB_bound:
  fixes x :: "32 word"
  assumes "x \<noteq> 0"
  shows "uint (getFFS x - 1) \<le> 31"
proof -
  obtain i where i: "i < 32" "getFFS x = of_nat i + 1" using getFFS_nonzero [OF assms] by blast
  have "uint (of_nat i :: 32 word) = int i" using i(1) by (intro uint_of_nat32) simp
  then show ?thesis using i by simp
qed

lemma high_half_guard:
  fixes p cnt :: "32 word"
  assumes "uint p \<le> 31" and "uint cnt \<le> 32"
    and "\<not> 31 < (scast p :: 64 word) + scast cnt"
  shows "uint p + uint cnt \<le> 31"
proof -
  have a: "uint (scast p :: 64 word) = uint p" using assms(1) by (intro uint_scast_small) simp
  have b: "uint (scast cnt :: 64 word) = uint cnt" using assms(2) by (intro uint_scast_small) simp
  have "uint ((scast p :: 64 word) + scast cnt) = (uint p + uint cnt) mod 2 ^ 64"
    by (simp add: uint_word_ariths a b)
  also have "\<dots> = uint p + uint cnt"
    using assms(1,2) by (intro mod_pos_pos_trivial) simp_all
  finally show ?thesis using assms(3) by (simp add: word_less_def not_less)
qed

lemma unat_le_uint: "unat (w :: 'a::len word) \<le> n \<longleftrightarrow> uint w \<le> int n"
proof -
  have "uint w \<le> int n \<longleftrightarrow> int (unat w) \<le> int n" by (simp only: uint_nat)
  then show ?thesis by (simp only: of_nat_le_iff)
qed

lemma posLSB_unat:
  fixes x :: "32 word"
  shows "x \<noteq> 0 \<Longrightarrow> unat (getFFS x - 1) \<le> 31"
  using posLSB_bound [of x] by (simp add: unat_le_uint)

lemma high_half_unat:
  fixes x :: "32 word"
  assumes "x \<noteq> 0"
    and "\<not> 31 < (scast (getFFS x - 1) :: 64 word) + scast (getNumConsecutiveOnes x)"
  shows "unat (getFFS x - 1) + unat (getNumConsecutiveOnes x) \<le> 31"
proof -
  have "uint (getFFS x - 1) + uint (getNumConsecutiveOnes x) \<le> 31"
    using posLSB_bound [OF assms(1)] getNumConsecutiveOnes_bound [of x] assms(2)
    by (rule high_half_guard)
  then have "int (unat (getFFS x - 1)) + int (unat (getNumConsecutiveOnes x)) \<le> 31"
    by (simp only: uint_nat)
  then show ?thesis by linarith
qed

lemma SelectConstant_i64_legal:
  assumes "SelectConstant_i64 ImmVal ImmSVal = Some r" and "n \<in> set (snd r)"
  shows "IMASK_legal n"
proof -
  let ?lo = "ucast (ImmVal AND 0x00000000ffffffff) :: 32 word"
  let ?hi = "ucast (drop_bit 32 ImmVal) :: 32 word"
  have low: "unat (ipow (getNumConsecutiveOnes ?lo) - 1) \<le> 15 \<and> unat (getFFS ?lo - 1) \<le> 31"
    if "?lo \<noteq> 0" "\<not> 4 < (scast (getNumConsecutiveOnes ?lo) :: 64 word)"
    using that Const4Val_bound posLSB_unat by blast
  have high: "unat (getFFS ?hi - 1) + unat (getNumConsecutiveOnes ?hi) \<le> 31"
    if "?hi \<noteq> 0" "\<not> 31 < (scast (getFFS ?hi - 1) :: 64 word) + scast (getNumConsecutiveOnes ?hi)"
    using that by (rule high_half_unat)
  show ?thesis
    using assms low high
    unfolding SelectConstant_i64_def Let_def getMachineNode_def
    by (auto split: if_splits
        simp: IMASK_legal_def getTargetConstant_scast ucast_scast_32 getTargetConstant_def)
qed

lemma SelectConstant_move_no_IMASK:
  "n \<in> set (snd (SelectConstant_move ImmVal ImmSVal)) \<Longrightarrow> getMachineOpcode n \<noteq> IMASKrcpw"
  by (auto simp: SelectConstant_move_def getMachineNode_def Let_def split: if_splits)

subsection \<open>The two halves of a 64-bit value\<close>

lemma lowerByte_ucast:
  fixes x :: "32 word"
  shows "(ucast ((ucast x :: 64 word) AND 0x00000000ffffffff) :: 32 word) = x"
proof -
  have m: "(0x00000000ffffffff :: 64 word) = mask 32" by (simp add: mask_eq_exp_minus_1)
  show ?thesis unfolding m by (rule bit_word_eqI) (auto simp: bit_simps)
qed

lemma higherByte_ucast:
  fixes x :: "32 word"
  shows "(ucast (drop_bit 32 (ucast x :: 64 word)) :: 32 word) = 0"
  by (rule bit_word_eqI) (auto simp: bit_simps dest: bit32_less)

lemma lowerByte_shifted:
  fixes x :: "32 word"
  shows "(ucast ((push_bit 32 (ucast x) :: 64 word) AND 0x00000000ffffffff) :: 32 word) = 0"
proof -
  have m: "(0x00000000ffffffff :: 64 word) = mask 32" by (simp add: mask_eq_exp_minus_1)
  show ?thesis unfolding m by (rule bit_word_eqI) (auto simp: bit_simps)
qed

lemma higherByte_shifted:
  fixes x :: "32 word"
  shows "(ucast (drop_bit 32 (push_bit 32 (ucast x) :: 64 word)) :: 32 word) = x"
  by (rule bit_word_eqI) (auto simp: bit_simps)

lemma shifted_eq_0:
  fixes x :: "32 word"
  shows "(push_bit 32 (ucast x) :: 64 word) = 0 \<longleftrightarrow> x = 0"
proof
  assume "(push_bit 32 (ucast x) :: 64 word) = 0"
  then have "(ucast (drop_bit 32 (push_bit 32 (ucast x) :: 64 word)) :: 32 word) = 0" by simp
  then show "x = 0" by (simp only: higherByte_shifted)
qed simp

lemma ucast_not_negative:
  fixes x :: "32 word"
  shows "\<not> (ucast x :: 64 word) <s 0"
proof -
  have "\<not> bit (ucast x :: 64 word) 63" by (auto simp: bit_simps dest: bit32_less)
  then show ?thesis using bit_last_iff [of "ucast x :: 64 word"] by (simp add: word_sless_alt)
qed

lemma shifted_not_negative:
  fixes x :: "32 word"
  assumes "\<not> bit x 31"
  shows "\<not> (push_bit 32 (ucast x) :: 64 word) <s 0"
proof -
  have "\<not> bit (push_bit 32 (ucast x) :: 64 word) 63" using assms by (auto simp: bit_simps)
  then show ?thesis
    using bit_last_iff [of "push_bit 32 (ucast x) :: 64 word"] by (simp add: word_sless_alt)
qed

lemma uint_scast_of_nat:
  assumes "n \<le> 32"
  shows "uint (scast (of_nat n :: 32 word) :: 64 word) = int n"
proof -
  have a: "uint (of_nat n :: 32 word) = int n" using assms by (intro uint_of_nat32) simp
  show ?thesis using assms uint_scast_small [of "of_nat n"] by (simp add: a)
qed

lemma scast_of_nat_eq:
  assumes "n \<le> 32"
  shows "(scast (of_nat n :: 32 word) :: 64 word) = of_nat n"
proof -
  have "uint (of_nat n :: 64 word) = int n"
    using assms by (simp add: unsigned_of_nat take_bit_nat_eq_self)
  then show ?thesis using uint_scast_of_nat [OF assms] by (simp only: word_uint_eq_iff)
qed

lemma of_nat64_le:
  assumes "n \<le> 64" and "k \<le> 64"
  shows "(of_nat n :: 64 word) \<le> of_nat k \<longleftrightarrow> n \<le> k"
proof -
  have "uint (of_nat n :: 64 word) = int n" "uint (of_nat k :: 64 word) = int k"
    using assms by (simp_all add: unsigned_of_nat take_bit_nat_eq_self)
  then show ?thesis by (simp add: word_le_def)
qed

lemma ipow_run:
  assumes "1 \<le> len" and "len \<le> 4"
  shows "ipow (of_nat len) - 1 = 2 ^ len - 1"
proof -
  have "len = 1 \<or> len = 2 \<or> len = 3 \<or> len = 4" using assms by arith
  then show ?thesis by (auto simp: ipow_small)
qed

lemma SelectConstant_low_run:
  assumes "1 \<le> len" and "len \<le> 4" and "pos + len \<le> 32"
  shows "SelectConstant (I64 (ucast (push_bit pos (mask len) :: 32 word))) =
     (Selected (MachineNode IMASKrcpw MVT_i64
        [TargetConstant (2 ^ len - 1), TargetConstant (of_nat pos), TargetConstant 0]),
      [MachineNode IMASKrcpw MVT_i64
        [TargetConstant (2 ^ len - 1), TargetConstant (of_nat pos), TargetConstant 0]])"
proof -
  let ?x = "push_bit pos (mask len) :: 32 word"
  have pos: "pos < 32" using assms by simp
  have nz: "?x \<noteq> 0" using assms by (intro run_nonzero)
  have ffs: "getFFS ?x - 1 = of_nat pos" using getFFS_run [OF assms(1,3)] by simp
  have ns: "getNumSetBits ?x = of_nat len" using pos assms(3) by (rule getNumSetBits_run)
  have nc: "getNumConsecutiveOnes ?x = of_nat len" using assms(3) by (rule getNumConsecutiveOnes_run)
  have sc: "(scast (of_nat len :: 32 word) :: 64 word) = of_nat len"
    using assms by (intro scast_of_nat_eq) simp
  have "(of_nat len :: 64 word) \<le> of_nat 4"
    using assms(2) by (subst of_nat64_le) simp_all
  then have le4: "\<not> 4 < (of_nat len :: 64 word)" by (simp add: not_less)
  have ip: "ipow (of_nat len) - 1 = 2 ^ len - 1" using assms(1,2) by (rule ipow_run)
  have c4: "getTargetConstant (scast (ipow (ucast (of_nat len :: 64 word)) - 1))
        = TargetConstant (2 ^ len - 1)"
    using ip ucast_scast_32 [of "of_nat len"] by (simp add: sc getTargetConstant_scast)
  show ?thesis
    using nz le4 c4
    by (simp add: SelectConstant_def SelectConstant_i64_def Let_def getMachineNode_def
        lowerByte_ucast higherByte_ucast ucast_32_64_eq_0 ucast_not_negative
        ffs ns nc sc getTargetConstant_scast getTargetConstant_def ucast_scast_32)
qed

lemma SelectConstant_high_run:
  assumes "1 \<le> len" and "pos + len \<le> 31"
  shows "SelectConstant (I64 (push_bit 32 (ucast (push_bit pos (mask len) :: 32 word)))) =
     (Selected (MachineNode IMASKrcpw MVT_i64
        [TargetConstant 0, TargetConstant (of_nat pos), TargetConstant (of_nat len)]),
      [MachineNode IMASKrcpw MVT_i64
        [TargetConstant 0, TargetConstant (of_nat pos), TargetConstant (of_nat len)]])"
proof -
  let ?x = "push_bit pos (mask len) :: 32 word"
  have pos: "pos < 32" and le32: "pos + len \<le> 32" using assms by simp_all
  have nz: "?x \<noteq> 0" using assms(1) le32 by (intro run_nonzero)
  have top: "\<not> bit ?x 31" using assms(2) by (simp add: bit_run_iff [OF le32])
  have ffs: "getFFS ?x - 1 = of_nat pos" using getFFS_run [OF assms(1) le32] by simp
  have ns: "getNumSetBits ?x = of_nat len" using pos le32 by (rule getNumSetBits_run)
  have nc: "getNumConsecutiveOnes ?x = of_nat len" using le32 by (rule getNumConsecutiveOnes_run)
  have sl: "(scast (of_nat len :: 32 word) :: 64 word) = of_nat len"
    using assms by (intro scast_of_nat_eq) simp
  have sp: "(scast (of_nat pos :: 32 word) :: 64 word) = of_nat pos"
    using assms by (intro scast_of_nat_eq) simp
  have "(of_nat (pos + len) :: 64 word) \<le> of_nat 31"
    using assms(2) by (subst of_nat64_le) simp_all
  then have guard: "\<not> 31 < (of_nat pos :: 64 word) + of_nat len" by (simp add: not_less)
  show ?thesis
    using nz guard
    by (simp add: SelectConstant_def SelectConstant_i64_def Let_def getMachineNode_def
        lowerByte_shifted higherByte_shifted shifted_eq_0 shifted_not_negative [OF top]
        ffs ns nc getTargetConstant_scast getTargetConstant_def ucast_scast_32
        flip: sl sp)
qed

lemma run_values:
  "(ucast (push_bit 4 (mask 4) :: 32 word) :: 64 word) = 0xf0"
  "(push_bit 32 (ucast (push_bit 0 (mask 31) :: 32 word)) :: 64 word) = 0x7fffffff00000000"
  by (simp_all add: mask_eq_exp_minus_1 push_bit_eq_mult)

subsection \<open>Legal encodings\<close>

text \<open>
  C3: every \<open>IMASKrcpw\<close> node that \<open>SelectConstant\<close> creates, for whatever constant and
  on whichever path, has three constant operands with position and width at most 31,
  position plus width at most 31, and a value operand of at most 15.
\<close>

theorem SelectConstant_IMASK_legal:
  "\<forall>n \<in> set (snd (SelectConstant C)). getMachineOpcode n = IMASKrcpw \<longrightarrow> IMASK_legal n"
proof (intro ballI impI)
  fix n assume n: "n \<in> set (snd (SelectConstant C))" and op: "getMachineOpcode n = IMASKrcpw"
  show "IMASK_legal n"
  proof (cases "getValueType C = MVT_i64 \<and> SelectConstant_i64 (getZExtValue C) (getSExtValue C) \<noteq> None")
    case True
    then obtain r where r: "SelectConstant_i64 (getZExtValue C) (getSExtValue C) = Some r" by blast
    then have "SelectConstant C = r" using True by (simp add: SelectConstant_def)
    then show ?thesis using SelectConstant_i64_legal [OF r] n by simp
  next
    case False
    then have "SelectConstant C = SelectConstant_move (getZExtValue C) (getSExtValue C)"
      by (auto simp: SelectConstant_def Let_def split: option.splits)
    then show ?thesis using SelectConstant_move_no_IMASK n op by simp
  qed
qed

theorem SelectConstant_IMASK_legal_witness:
  "MachineNode IMASKrcpw MVT_i64 [TargetConstant 15, TargetConstant 4, TargetConstant 0]
      \<in> set (snd (SelectConstant (I64 0xf0)))
   \<and> getMachineOpcode (MachineNode IMASKrcpw MVT_i64 [TargetConstant 15, TargetConstant 4, TargetConstant 0])
        = IMASKrcpw
   \<and> IMASK_legal (MachineNode IMASKrcpw MVT_i64 [TargetConstant 15, TargetConstant 4, TargetConstant 0])
   \<and> MachineNode IMASKrcpw MVT_i64 [TargetConstant 0, TargetConstant 0, TargetConstant 31]
      \<in> set (snd (SelectConstant (I64 0x7fffffff00000000)))
   \<and> IMASK_legal (MachineNode IMASKrcpw MVT_i64 [TargetConstant 0, TargetConstant 0, TargetConstant 31])
   \<and> MachineNode IMASKrcpw MVT_i64 [TargetConstant 0, TargetConstant 0, TargetConstant 0]
      \<in> set (snd (SelectConstant (I64 0)))
   \<and> IMASK_legal (MachineNode IMASKrcpw MVT_i64 [TargetConstant 0, TargetConstant 0, TargetConstant 0])"
proof -
  have a: "MachineNode IMASKrcpw MVT_i64 [TargetConstant 15, TargetConstant 4, TargetConstant 0]
      \<in> set (snd (SelectConstant (I64 0xf0)))"
    using SelectConstant_low_run [of 4 4] unfolding run_values by simp
  have b: "MachineNode IMASKrcpw MVT_i64 [TargetConstant 0, TargetConstant 0, TargetConstant 31]
      \<in> set (snd (SelectConstant (I64 0x7fffffff00000000)))"
    using SelectConstant_high_run [of 31 0] unfolding run_values by simp
  have c: "MachineNode IMASKrcpw MVT_i64 [TargetConstant 0, TargetConstant 0, TargetConstant 0]
      \<in> set (snd (SelectConstant (I64 0)))"
    by (simp add: SelectConstant_def SelectConstant_i64_def getMachineNode_def getTargetConstant_def
        Let_def)
  show ?thesis
    using a b c
      SelectConstant_IMASK_legal [of "I64 0xf0"]
      SelectConstant_IMASK_legal [of "I64 0x7fffffff00000000"]
      SelectConstant_IMASK_legal [of "I64 0"]
    by fastforce
qed

subsection \<open>Runs of ones\<close>

lemma unat_of_nat32_small: "n < 32 \<Longrightarrow> unat (of_nat n :: 32 word) = n"
  by (simp add: unat_of_nat)

lemma IMASK_value_low:
  assumes "pos < 32"
  shows "IMASK_value (2 ^ len - 1) (of_nat pos) 0 = ucast (push_bit pos (mask len) :: 32 word)"
  using assms by (simp add: IMASK_value_def unat_of_nat32_small mask_eq_exp_minus_1)

lemma IMASK_value_high:
  assumes "pos < 32" and "len < 32"
  shows "IMASK_value 0 (of_nat pos) (of_nat len)
           = push_bit 32 (ucast (push_bit pos (mask len) :: 32 word))"
  using assms by (simp add: IMASK_value_def unat_of_nat32_small)

text \<open>
  C2: a 64-bit constant with one half zero and the other a single run of \<open>len\<close> ones
  starting at bit \<open>pos\<close> of that half is materialized by exactly one \<open>IMASKrcpw\<close> node.
  When the run is in the low half and at most 4 long, the operands are value
  \<open>2^len - 1\<close>, position \<open>pos\<close> and width 0; when it is in the high half with
  \<open>pos + len\<close> at most 31, they are value 0, position \<open>pos\<close> and width \<open>len\<close>. In both
  cases the masked insert with these operands yields the constant.
\<close>

theorem SelectConstant_IMASK_run:
  "(1 \<le> len \<and> len \<le> 4 \<and> pos + len \<le> 32 \<longrightarrow>
      SelectConstant (I64 (ucast (push_bit pos (mask len) :: 32 word))) =
        (Selected (MachineNode IMASKrcpw MVT_i64
           [TargetConstant (2 ^ len - 1), TargetConstant (of_nat pos), TargetConstant 0]),
         [MachineNode IMASKrcpw MVT_i64
           [TargetConstant (2 ^ len - 1), TargetConstant (of_nat pos), TargetConstant 0]])
      \<and> eval_IMASK (MachineNode IMASKrcpw MVT_i64
           [TargetConstant (2 ^ len - 1), TargetConstant (of_nat pos), TargetConstant 0])
          = Some (ucast (push_bit pos (mask len) :: 32 word)))
   \<and> (1 \<le> len \<and> pos + len \<le> 31 \<longrightarrow>
      SelectConstant (I64 (push_bit 32 (ucast (push_bit pos (mask len) :: 32 word)))) =
        (Selected (MachineNode IMASKrcpw MVT_i64
           [TargetConstant 0, TargetConstant (of_nat pos), TargetConstant (of_nat len)]),
         [MachineNode IMASKrcpw MVT_i64
           [TargetConstant 0, TargetConstant (of_nat pos), TargetConstant (of_nat len)]])
      \<and> eval_IMASK (MachineNode IMASKrcpw MVT_i64
           [TargetConstant 0, TargetConstant (of_nat pos), TargetConstant (of_nat len)])
          = Some (push_bit 32 (ucast (push_bit pos (mask len) :: 32 word))))"
proof (intro conjI impI)
  assume a: "1 \<le> len \<and> len \<le> 4 \<and> pos + len \<le> 32"
  then show "SelectConstant (I64 (ucast (push_bit pos (mask len) :: 32 word))) =
        (Selected (MachineNode IMASKrcpw MVT_i64
           [TargetConstant (2 ^ len - 1), TargetConstant (of_nat pos), TargetConstant 0]),
         [MachineNode IMASKrcpw MVT_i64
           [TargetConstant (2 ^ len - 1), TargetConstant (of_nat pos), TargetConstant 0]])"
    by (intro SelectConstant_low_run) simp_all
  have "pos < 32" using a by simp
  then show "eval_IMASK (MachineNode IMASKrcpw MVT_i64
           [TargetConstant (2 ^ len - 1), TargetConstant (of_nat pos), TargetConstant 0])
          = Some (ucast (push_bit pos (mask len) :: 32 word))"
    by (simp add: eval_IMASK_def IMASK_value_low)
next
  assume a: "1 \<le> len \<and> pos + len \<le> 31"
  then show "SelectConstant (I64 (push_bit 32 (ucast (push_bit pos (mask len) :: 32 word)))) =
        (Selected (MachineNode IMASKrcpw MVT_i64
           [TargetConstant 0, TargetConstant (of_nat pos), TargetConstant (of_nat len)]),
         [MachineNode IMASKrcpw MVT_i64
           [TargetConstant 0, TargetConstant (of_nat pos), TargetConstant (of_nat len)]])"
    by (intro SelectConstant_high_run) simp_all
  have "pos < 32" "len < 32" using a by simp_all
  then show "eval_IMASK (MachineNode IMASKrcpw MVT_i64
           [TargetConstant 0, TargetConstant (of_nat pos), TargetConstant (of_nat len)])
          = Some (push_bit 32 (ucast (push_bit pos (mask len) :: 32 word)))"
    by (simp add: eval_IMASK_def IMASK_value_high)
qed

theorem SelectConstant_IMASK_run_witness:
  "(1::nat) \<le> 4 \<and> (4::nat) \<le> 4 \<and> (4::nat) + 4 \<le> 32
   \<and> SelectConstant (I64 0xf0) =
        (Selected (MachineNode IMASKrcpw MVT_i64 [TargetConstant 15, TargetConstant 4, TargetConstant 0]),
         [MachineNode IMASKrcpw MVT_i64 [TargetConstant 15, TargetConstant 4, TargetConstant 0]])
   \<and> eval_IMASK (MachineNode IMASKrcpw MVT_i64 [TargetConstant 15, TargetConstant 4, TargetConstant 0])
        = Some 0xf0
   \<and> (1::nat) \<le> 31 \<and> (0::nat) + 31 \<le> 31
   \<and> SelectConstant (I64 0x7fffffff00000000) =
        (Selected (MachineNode IMASKrcpw MVT_i64 [TargetConstant 0, TargetConstant 0, TargetConstant 31]),
         [MachineNode IMASKrcpw MVT_i64 [TargetConstant 0, TargetConstant 0, TargetConstant 31]])
   \<and> eval_IMASK (MachineNode IMASKrcpw MVT_i64 [TargetConstant 0, TargetConstant 0, TargetConstant 31])
        = Some 0x7fffffff00000000"
  using SelectConstant_IMASK_run [of 4 4] SelectConstant_IMASK_run [of 31 0]
  unfolding run_values by simp

end
